theory Spec2Isabelle
  imports Complex_Main
begin

section \<open>Python values used by the flyers\<close>

text \<open>
  The notebooks define two flyer devices, \<open>MyFlyer\<close> and \<open>BusyFlyerDevice\<close>, and the
  plan of \<open>TaxiFlyScanDevice\<close>. Numbers (waveform samples and clock readings) are kept
  in a type variable \<open>'n\<close>: the code only copies them, subtracts \<open>t0\<close> from them and
  hands them on, so the general results do not depend on how the subtraction rounds.
  The instances take integers; only the counterexample of the end-to-end claim takes
  real numbers, to write the values of the claim down.
\<close>

datatype error =
    RuntimeError string
  | IndexError
  | KeyError
  | AttributeError

text \<open>
  \<open>class BusyStatus(str, enum.Enum)\<close>: the members are strings, so a member used as a
  right operand of \<open>in\<close> is searched as a string.
\<close>

definition BusyStatus_busy :: string where
  "BusyStatus_busy = ''Busy''"

definition BusyStatus_done :: string where
  "BusyStatus_done = ''Done''"

text \<open>Python's \<open>x in s\<close> on two strings: \<open>x\<close> occurs in \<open>s\<close> as a contiguous slice.\<close>

fun str_in :: "string \<Rightarrow> string \<Rightarrow> bool" where
  "str_in x [] = (x = [])"
| "str_in x (c # s) = (take (length x) (c # s) = x \<or> str_in x s)"

text \<open>Python's \<open>xs[i]\<close> for an index \<open>i\<close> drawn from \<open>range\<close> (never negative).\<close>

definition getitem :: "'a list \<Rightarrow> nat \<Rightarrow> error + 'a" where
  "getitem xs i = (if i < length xs then Inr (xs ! i) else Inl IndexError)"

section \<open>Status objects, the busy signal and the clock\<close>

text \<open>
  Modelled from the spec: \<open>ophyd.DeviceStatus\<close> is library code. Following the
  CompletionFuture contract, a new status is unresolved, and \<open>_finished\<close> sets the
  resolved and success flags on its first call and is ignored afterwards.
\<close>

record DeviceStatus =
  st_done :: bool
  st_success :: bool

text \<open>What a method does to the outside, in the order it does it.\<close>

datatype effect =
    New_status nat
  | Subscribe nat
  | Time_time
  | Put string

text \<open>
  The part of a device both flyers share. Status objects live in a store and are named
  by their address, so that two statuses with equal flags stay different objects.
  \<open>busy_value\<close> is the value of the busy signal as last posted by the IOC;
  \<open>subscribers\<close> are the callbacks registered on it; \<open>now\<close> lists the successive
  readings of \<open>time.time()\<close> and \<open>ticks\<close> counts the readings taken so far.
\<close>

record 'n device =
  statuses :: "nat \<Rightarrow> DeviceStatus option"
  next_status :: nat
  busy_value :: string
  subscribers :: "nat list"
  next_cid :: nat
  now :: "nat \<Rightarrow> 'n"
  ticks :: nat
  trace :: "effect list"
  t0 :: 'n

definition DeviceStatus_new :: "('n, 'z) device_scheme \<Rightarrow> nat \<times> ('n, 'z) device_scheme" where
  "DeviceStatus_new st =
     (next_status st,
      st\<lparr>statuses := (statuses st)(next_status st \<mapsto> \<lparr>st_done = False, st_success = False\<rparr>),
         next_status := Suc (next_status st),
         trace := trace st @ [New_status (next_status st)]\<rparr>)"

definition finished :: "nat \<Rightarrow> bool \<Rightarrow> ('n, 'z) device_scheme \<Rightarrow> ('n, 'z) device_scheme" where
  "finished r ok st =
     (case statuses st r of
        None \<Rightarrow> st
      | Some s \<Rightarrow>
          if st_done s then st
          else st\<lparr>statuses := (statuses st)(r \<mapsto> \<lparr>st_done = True, st_success = ok\<rparr>)\<rparr>)"

definition time_time :: "('n, 'z) device_scheme \<Rightarrow> 'n \<times> ('n, 'z) device_scheme" where
  "time_time st =
     (now st (ticks st), st\<lparr>ticks := Suc (ticks st), trace := trace st @ [Time_time]\<rparr>)"

text \<open>
  Modelled from the spec: \<open>subscribe\<close> and \<open>put\<close> of \<open>ophyd.EpicsSignal\<close> are library
  code. \<open>subscribe\<close> registers a callback for later value changes; \<open>put\<close> sends a
  request and does not wait for the remote side.
\<close>

definition subscribe :: "('n, 'z) device_scheme \<Rightarrow> ('n, 'z) device_scheme" where
  "subscribe st =
     st\<lparr>subscribers := subscribers st @ [next_cid st],
        next_cid := Suc (next_cid st),
        trace := trace st @ [Subscribe (next_cid st)]\<rparr>"

definition put :: "string \<Rightarrow> ('n, 'z) device_scheme \<Rightarrow> ('n, 'z) device_scheme" where
  "put v st = st\<lparr>trace := trace st @ [Put v]\<rparr>"

section \<open>MyFlyer\<close>

record 'n MyWaveform =
  name :: string
  wave :: "'n list"
  number_elements :: nat
  number_read :: nat

record 'n MyFlyer = "'n device" +
  completion_status :: "nat option"
  tArr :: "'n MyWaveform"
  xArr :: "'n MyWaveform"
  yArr :: "'n MyWaveform"

text \<open>
  The callback \<open>cb\<close> defined inside \<open>kickoff\<close>. It closes over \<open>self\<close> only: it ignores its
  arguments, reads the signal again, and finishes whatever status \<open>self\<close> holds when it
  runs. With no status (\<open>None\<close>) the attribute access raises.
\<close>

definition MyFlyer_cb :: "'n MyFlyer \<Rightarrow> error + 'n MyFlyer" where
  "MyFlyer_cb st =
     (if str_in (busy_value st) BusyStatus_done then
        (case completion_status st of
           None \<Rightarrow> Inl AttributeError
         | Some r \<Rightarrow> Inr (finished r True st))
      else Inr st)"

text \<open>
  \<open>kickoff\<close> creates the completion status, subscribes \<open>cb\<close>, reads the clock into
  \<open>t0\<close>, writes \<open>Busy\<close> to the busy signal, and returns a second status that it has
  finished itself. \<open>complete\<close> raises when there is no completion status.
\<close>

definition MyFlyer_kickoff :: "'n MyFlyer \<Rightarrow> error + (nat \<times> 'n MyFlyer)" where
  "MyFlyer_kickoff st =
     (let (r, st1) = DeviceStatus_new st;
          st2 = st1\<lparr>completion_status := Some r\<rparr>;
          st3 = subscribe st2;
          (t, st4) = time_time st3;
          st5 = st4\<lparr>t0 := t\<rparr>;
          st6 = put BusyStatus_busy st5;
          (k, st7) = DeviceStatus_new st6;
          st8 = finished k True st7
      in Inr (k, st8))"

definition MyFlyer_complete :: "'n MyFlyer \<Rightarrow> error + nat" where
  "MyFlyer_complete st =
     (case completion_status st of
        None \<Rightarrow> Inl (RuntimeError ''No collection in progress'')
      | Some r \<Rightarrow> Inr r)"

section \<open>BusyFlyerDevice\<close>

text \<open>
  The waveform called \<open>time\<close> in the class is the field \<open>wtime\<close> here. \<open>kickoff\<close>
  writes the busy signal before it subscribes, and \<open>complete\<close> returns the status
  without a check.
\<close>

record 'n BusyFlyerDevice = "'n device" +
  complete_status :: "nat option"
  wtime :: "'n MyWaveform"
  axis :: "'n MyWaveform"
  signal :: "'n MyWaveform"

definition BusyFlyerDevice_cb :: "'n BusyFlyerDevice \<Rightarrow> error + 'n BusyFlyerDevice" where
  "BusyFlyerDevice_cb st =
     (if str_in (busy_value st) BusyStatus_done then
        (case complete_status st of
           None \<Rightarrow> Inl AttributeError
         | Some r \<Rightarrow> Inr (finished r True st))
      else Inr st)"

definition BusyFlyerDevice_kickoff ::
    "'n BusyFlyerDevice \<Rightarrow> error + (nat \<times> 'n BusyFlyerDevice)" where
  "BusyFlyerDevice_kickoff st =
     (let (r, st1) = DeviceStatus_new st;
          st2 = st1\<lparr>complete_status := Some r\<rparr>;
          (t, st3) = time_time st2;
          st4 = st3\<lparr>t0 := t\<rparr>;
          st5 = put BusyStatus_busy st4;
          st6 = subscribe st5;
          (k, st7) = DeviceStatus_new st6;
          st8 = finished k True st7
      in Inr (k, st8))"

definition BusyFlyerDevice_complete :: "'n BusyFlyerDevice \<Rightarrow> error + nat option" where
  "BusyFlyerDevice_complete st = Inr (complete_status st)"

section \<open>Generators\<close>

text \<open>
  \<open>collect\<close> and \<open>plan\<close> are generators. A run of a generator that is consumed to its
  end is what it yielded, in order, the exception that ended it (if any), and the
  state it left behind.
\<close>

record ('d, 's) run =
  yielded :: "'d list"
  raised :: "error option"
  final :: 's

text \<open>
  \<open>for i in range(...): ...; yield d\<close>. The body either raises, leaving the state it
  had reached, or yields a document and goes on.
\<close>

fun for_yield ::
    "(nat \<Rightarrow> 's \<Rightarrow> (error \<times> 's) + ('d \<times> 's)) \<Rightarrow> nat list \<Rightarrow> 's \<Rightarrow> ('d, 's) run" where
  "for_yield body [] st = \<lparr>yielded = [], raised = None, final = st\<rparr>"
| "for_yield body (i # is) st =
     (case body i st of
        Inl (e, st') \<Rightarrow> \<lparr>yielded = [], raised = Some e, final = st'\<rparr>
      | Inr (d, st') \<Rightarrow>
          (let r = for_yield body is st' in r\<lparr>yielded := d # yielded r\<rparr>))"

text \<open>The dictionary each \<open>collect\<close> yields.\<close>

record 'n event =
  time :: 'n
  data :: "string \<Rightarrow> 'n option"
  timestamps :: "string \<Rightarrow> 'n option"

section \<open>MyFlyer.collect\<close>

text \<open>
  The body of the loop reads the three waveforms at \<open>i\<close> (through the global \<open>ifly\<close>,
  which is the device itself), then reads the clock twice: first for \<open>time\<close>, then for
  the value of \<open>ifly_tArr\<close>. The time sample goes to the timestamps. The waveforms
  are taken not to change while \<open>collect\<close> runs.
\<close>

definition MyFlyer_collect_body ::
    "nat \<Rightarrow> ('n::minus) MyFlyer \<Rightarrow> (error \<times> 'n MyFlyer) + ('n event \<times> 'n MyFlyer)" where
  "MyFlyer_collect_body i st =
     (case getitem (wave (tArr st)) i of
        Inl e \<Rightarrow> Inl (e, st)
      | Inr t \<Rightarrow>
     (case getitem (wave (xArr st)) i of
        Inl e \<Rightarrow> Inl (e, st)
      | Inr x \<Rightarrow>
     (case getitem (wave (yArr st)) i of
        Inl e \<Rightarrow> Inl (e, st)
      | Inr y \<Rightarrow>
          (let (now1, st1) = time_time st;
               (now2, st2) = time_time st1
           in Inr (\<lparr>time = now1,
                     data = [''ifly_tArr'' \<mapsto> now2 - t0 st2,
                             ''ifly_xArr'' \<mapsto> x,
                             ''ifly_yArr'' \<mapsto> y],
                     timestamps = [''ifly_tArr'' \<mapsto> t,
                                   ''ifly_xArr'' \<mapsto> t,
                                   ''ifly_yArr'' \<mapsto> t]\<rparr>,
                   st2)))))"

text \<open>
  \<open>collect\<close> resets the completion status and loops over the indices of the time
  waveform. The run is that of a caller who consumes the generator to its end, as
  \<open>list(ifly.collect())\<close> does.
\<close>

definition MyFlyer_collect :: "('n::minus) MyFlyer \<Rightarrow> ('n event, 'n MyFlyer) run" where
  "MyFlyer_collect st =
     (let st1 = st\<lparr>completion_status := None\<rparr>
      in for_yield MyFlyer_collect_body [0 ..< length (wave (tArr st1))] st1)"

section \<open>BusyFlyerDevice.collect\<close>

text \<open>
  The inner loop \<open>for item in self.waves\<close>: it fills the two dictionaries from each
  waveform in turn and stops at the first read that is out of range.
\<close>

fun fill_item ::
    "nat \<Rightarrow> 'n \<Rightarrow> 'n MyWaveform list \<Rightarrow>
     (string \<Rightarrow> 'n option) \<times> (string \<Rightarrow> 'n option) \<Rightarrow>
     error + (string \<Rightarrow> 'n option) \<times> (string \<Rightarrow> 'n option)" where
  "fill_item i t [] (d, ts) = Inr (d, ts)"
| "fill_item i t (item # items) (d, ts) =
     (case getitem (wave item) i of
        Inl e \<Rightarrow> Inl e
      | Inr v \<Rightarrow> fill_item i t items (d(name item \<mapsto> v), ts(name item \<mapsto> t)))"

text \<open>\<open>self.waves = (self.time, self.axis, self.signal)\<close>.\<close>

definition waves :: "'n BusyFlyerDevice \<Rightarrow> 'n MyWaveform list" where
  "waves st = [wtime st, axis st, signal st]"

text \<open>
  The body of the loop reads the clock for the timestamps, fills the dictionaries,
  subtracts \<open>t0\<close> from the value stored under the name of the time waveform, and
  reads the clock again for \<open>time\<close>. The loop runs over \<open>number_read\<close> of the time
  waveform.
\<close>

definition BusyFlyerDevice_collect_body ::
    "nat \<Rightarrow> ('n::minus) BusyFlyerDevice \<Rightarrow>
     (error \<times> 'n BusyFlyerDevice) + ('n event \<times> 'n BusyFlyerDevice)" where
  "BusyFlyerDevice_collect_body i st =
     (let (t, st1) = time_time st
      in case fill_item i t (waves st1) (Map.empty, Map.empty) of
           Inl e \<Rightarrow> Inl (e, st1)
         | Inr (d, ts) \<Rightarrow>
             (case d (name (wtime st1)) of
                None \<Rightarrow> Inl (KeyError, st1)
              | Some v \<Rightarrow>
                  (let d' = d(name (wtime st1) \<mapsto> v - t0 st1);
                       (now2, st2) = time_time st1
                   in Inr (\<lparr>time = now2, data = d', timestamps = ts\<rparr>, st2))))"

definition BusyFlyerDevice_collect ::
    "('n::minus) BusyFlyerDevice \<Rightarrow> ('n event, 'n BusyFlyerDevice) run" where
  "BusyFlyerDevice_collect st =
     (let st1 = st\<lparr>complete_status := None\<rparr>
      in for_yield BusyFlyerDevice_collect_body [0 ..< number_read (wtime st1)] st1)"

section \<open>Value changes of the busy signal\<close>

text \<open>
  Modelled from the spec: the delivery of change notifications is library code. When
  the IOC posts a new value, the signal takes it and every registered callback runs
  once; an exception inside a callback does not reach the other callbacks.
\<close>

fun run_callbacks :: "('s \<Rightarrow> error + 's) \<Rightarrow> nat list \<Rightarrow> 's \<Rightarrow> 's" where
  "run_callbacks cb [] st = st"
| "run_callbacks cb (c # cs) st =
     (case cb st of
        Inl e \<Rightarrow> run_callbacks cb cs st
      | Inr st' \<Rightarrow> run_callbacks cb cs st')"

definition MyFlyer_monitor :: "string \<Rightarrow> 'n MyFlyer \<Rightarrow> 'n MyFlyer" where
  "MyFlyer_monitor v st =
     run_callbacks MyFlyer_cb (subscribers st) (st\<lparr>busy_value := v\<rparr>)"

definition BusyFlyerDevice_monitor :: "string \<Rightarrow> 'n BusyFlyerDevice \<Rightarrow> 'n BusyFlyerDevice" where
  "BusyFlyerDevice_monitor v st =
     run_callbacks BusyFlyerDevice_cb (subscribers st) (st\<lparr>busy_value := v\<rparr>)"

text \<open>
  The notification thread running one registered callback, named by the identifier
  \<open>subscribe\<close> gave it. All callbacks of a flyer have the same body.
\<close>

definition MyFlyer_deliver :: "nat \<Rightarrow> 'n MyFlyer \<Rightarrow> error + 'n MyFlyer" where
  "MyFlyer_deliver cid st = (if cid \<in> set (subscribers st) then MyFlyer_cb st else Inr st)"

definition BusyFlyerDevice_deliver ::
    "nat \<Rightarrow> 'n BusyFlyerDevice \<Rightarrow> error + 'n BusyFlyerDevice" where
  "BusyFlyerDevice_deliver cid st =
     (if cid \<in> set (subscribers st) then BusyFlyerDevice_cb st else Inr st)"

section \<open>Construction and two instances\<close>

text \<open>
  \<open>__init__\<close> of the two classes. What the device finds outside (the value of the busy
  signal, the clock, the contents of the three waveforms) is given as arguments. The
  EPICS database declares 256 elements for each waveform. \<open>MyFlyer.__init__\<close> sets
  \<open>t0 = 0\<close>; \<open>BusyFlyerDevice.__init__\<close> reads the clock.
\<close>

definition waveform :: "string \<Rightarrow> 'n list \<Rightarrow> 'n MyWaveform" where
  "waveform nm xs = \<lparr>name = nm, wave = xs, number_elements = 256, number_read = length xs\<rparr>"

definition MyFlyer_init ::
    "string \<Rightarrow> (nat \<Rightarrow> 'n) \<Rightarrow> 'n list \<Rightarrow> 'n list \<Rightarrow> 'n list \<Rightarrow> ('n::zero) MyFlyer" where
  "MyFlyer_init v clk ts xs ys =
     \<lparr>statuses = Map.empty, next_status = 0, busy_value = v, subscribers = [], next_cid = 0,
      now = clk, ticks = 0, trace = [], t0 = 0,
      completion_status = None,
      tArr = waveform ''ifly_tArr'' ts,
      xArr = waveform ''ifly_xArr'' xs,
      yArr = waveform ''ifly_yArr'' ys\<rparr>"

definition BusyFlyerDevice_init ::
    "string \<Rightarrow> (nat \<Rightarrow> 'n) \<Rightarrow> 'n list \<Rightarrow> 'n list \<Rightarrow> 'n list \<Rightarrow> 'n BusyFlyerDevice" where
  "BusyFlyerDevice_init v clk ts xs ys =
     \<lparr>statuses = Map.empty, next_status = 0, busy_value = v, subscribers = [], next_cid = 0,
      now = clk, ticks = 1, trace = [Time_time], t0 = clk 0,
      complete_status = None,
      wtime = waveform ''bflyer_time'' ts,
      axis = waveform ''bflyer_axis'' xs,
      signal = waveform ''bflyer_signal'' ys\<rparr>"

text \<open>
  \<open>ifly = MyFlyer("prj:", name="ifly")\<close> and \<open>bflyer = BusyFlyerDevice(name="bflyer")\<close>,
  with the busy record at rest, a clock that starts at 100 and three samples in each
  waveform.
\<close>

definition ifly_with :: "int list \<Rightarrow> int list \<Rightarrow> int list \<Rightarrow> int MyFlyer" where
  "ifly_with ts xs ys = MyFlyer_init ''Done'' (\<lambda>k. 100 + int k) ts xs ys"

definition bflyer_with :: "int list \<Rightarrow> int list \<Rightarrow> int list \<Rightarrow> int BusyFlyerDevice" where
  "bflyer_with ts xs ys = BusyFlyerDevice_init ''Done'' (\<lambda>k. 100 + int k) ts xs ys"

definition ifly :: "int MyFlyer" where
  "ifly = ifly_with [101, 102, 103] [7, 8, 9] [4, 5, 6]"

definition bflyer :: "int BusyFlyerDevice" where
  "bflyer = bflyer_with [101, 102, 103] [7, 8, 9] [4, 5, 6]"

text \<open>The state a call leaves behind when it returns normally.\<close>

definition after :: "error + ('a \<times> 's) \<Rightarrow> 's" where
  "after r = snd (projr r)"

text \<open>
  The two instances after one whole cycle (\<open>kickoff\<close>, the IOC posting \<open>Busy\<close> and then
  \<open>Done\<close>), and after \<open>collect\<close> and a second \<open>kickoff\<close>.
\<close>

definition ifly_flown :: "int MyFlyer" where
  "ifly_flown = MyFlyer_monitor ''Done'' (MyFlyer_monitor ''Busy'' (after (MyFlyer_kickoff ifly)))"

definition ifly_again :: "int MyFlyer" where
  "ifly_again = after (MyFlyer_kickoff (final (MyFlyer_collect ifly_flown)))"

definition bflyer_flown :: "int BusyFlyerDevice" where
  "bflyer_flown =
     BusyFlyerDevice_monitor ''Done''
       (BusyFlyerDevice_monitor ''Busy'' (after (BusyFlyerDevice_kickoff bflyer)))"

definition bflyer_again :: "int BusyFlyerDevice" where
  "bflyer_again = after (BusyFlyerDevice_kickoff (final (BusyFlyerDevice_collect bflyer_flown)))"

text \<open>
  Two states in which a callback may run: \<open>ifly\<close> kicked off while the busy record
  reads \<open>Busy\<close>, and \<open>bflyer\<close> kicked off likewise with the busy signal then reading
  \<open>Done\<close>, as a callback finds it when the IOC posts \<open>Done\<close>.
\<close>

definition ifly_armed :: "int MyFlyer" where
  "ifly_armed = after (MyFlyer_kickoff (MyFlyer_init ''Busy'' (\<lambda>k. 100 + int k) [] [] []))"

definition bflyer_posted :: "int BusyFlyerDevice" where
  "bflyer_posted =
     (after (BusyFlyerDevice_kickoff (BusyFlyerDevice_init ''Busy'' (\<lambda>k. 100 + int k) [] [] [])))
       \<lparr>busy_value := BusyStatus_done\<rparr>"

section \<open>One flight\<close>

text \<open>
  A whole cycle up to the moment \<open>collect\<close> is called: the device is constructed and
  kicked off, the IOC posts \<open>Busy\<close>, the controller stores its samples in the three
  waveforms, and the IOC posts \<open>Done\<close>. \<open>store\<close> is the controller writing a waveform
  record: the samples and their count.
\<close>

definition store :: "'n list \<Rightarrow> 'n MyWaveform \<Rightarrow> 'n MyWaveform" where
  "store xs w = w\<lparr>wave := xs, number_read := length xs\<rparr>"

definition MyFlyer_flown ::
    "(nat \<Rightarrow> 'n) \<Rightarrow> 'n list \<Rightarrow> 'n list \<Rightarrow> 'n list \<Rightarrow> ('n::zero) MyFlyer" where
  "MyFlyer_flown clk ts xs ys =
     (let s1 = after (MyFlyer_kickoff (MyFlyer_init ''Done'' clk [] [] []));
          s2 = MyFlyer_monitor ''Busy'' s1;
          s3 = s2\<lparr>tArr := store ts (tArr s2), xArr := store xs (xArr s2),
                  yArr := store ys (yArr s2)\<rparr>
      in MyFlyer_monitor ''Done'' s3)"

definition BusyFlyerDevice_flown ::
    "(nat \<Rightarrow> 'n) \<Rightarrow> 'n list \<Rightarrow> 'n list \<Rightarrow> 'n list \<Rightarrow> 'n BusyFlyerDevice" where
  "BusyFlyerDevice_flown clk ts xs ys =
     (let s1 = after (BusyFlyerDevice_kickoff (BusyFlyerDevice_init ''Done'' clk [] [] []));
          s2 = BusyFlyerDevice_monitor ''Busy'' s1;
          s3 = s2\<lparr>wtime := store ts (wtime s2), axis := store xs (axis s2),
                  signal := store ys (signal s2)\<rparr>
      in BusyFlyerDevice_monitor ''Done'' s3)"

section \<open>TaxiFlyScanDevice\<close>

text \<open>
  The device has two signals, \<open>taxi\<close> and \<open>fly\<close>. Of a signal the plan reads
  \<open>enum_strs\<close> only. Modelled from the spec: each flag has a done sentinel of its own,
  \<open>done_str\<close>, the value at which the remote side reports that the phase is over.
\<close>

datatype flag = Taxi | Fly

record EpicsSignal =
  enum_strs :: "string list"
  done_str :: string

record TaxiFlyScanDevice =
  taxi :: EpicsSignal
  fly :: EpicsSignal

text \<open>
  The messages of a bluesky plan. The plan below produces \<open>set\<close> and \<open>wait\<close> only;
  \<open>read\<close> and \<open>collect\<close> are the messages by which a plan would take data.
\<close>

datatype msg =
    Msg_set flag string nat
  | Msg_wait nat
  | Msg_read flag
  | Msg_collect

text \<open>
  Modelled from the spec: \<open>bluesky.plan_stubs.mv\<close> is library code. It sets the signal
  under a fresh group and then waits for that group, as the message trace printed in
  the notebook shows (\<open>set\<close> then \<open>wait\<close>, with the same group). The group
  identifiers are given as arguments.
\<close>

definition mv :: "flag \<Rightarrow> string \<Rightarrow> nat \<Rightarrow> msg list" where
  "mv obj v g = [Msg_set obj v g, Msg_wait g]"

text \<open>
  \<open>TaxiFlyScanDevice.plan\<close>, a generator. \<open>enum_strs[1]\<close> raises when the signal has
  fewer than two states; the second lookup happens after the messages of the taxi
  phase have been yielded.
\<close>

definition plan :: "TaxiFlyScanDevice \<Rightarrow> nat \<Rightarrow> nat \<Rightarrow> (msg, unit) run" where
  "plan self g1 g2 =
     (case getitem (enum_strs (taxi self)) 1 of
        Inl e \<Rightarrow> \<lparr>yielded = [], raised = Some e, final = ()\<rparr>
      | Inr v1 \<Rightarrow>
          (case getitem (enum_strs (fly self)) 1 of
             Inl e \<Rightarrow> \<lparr>yielded = mv Taxi v1 g1, raised = Some e, final = ()\<rparr>
           | Inr v2 \<Rightarrow> \<lparr>yielded = mv Taxi v1 g1 @ mv Fly v2 g2, raised = None, final = ()\<rparr>))"

definition takes_data :: "msg \<Rightarrow> bool" where
  "takes_data m = (case m of Msg_read f \<Rightarrow> True | Msg_collect \<Rightarrow> True | _ \<Rightarrow> False)"

text \<open>
  Modelled from the spec: the run engine is library code. It handles the messages in
  order. \<open>set\<close> writes the value (a request) and notes the signal under its group.
  \<open>wait\<close> blocks until every signal noted under the group has been seen at its done
  sentinel; what the remote side posts meanwhile is given as the list \<open>remote\<close>, and when
  that list ends before the group is done the engine stays blocked. The log records the
  writes and the posted values seen, in order.
\<close>

datatype re_event = Wrote flag string | Saw flag string | Acquired

datatype outcome = Finished | Blocked

record RunEngine_state =
  pending :: "nat \<Rightarrow> flag list"
  remote :: "(flag \<times> string) list"
  re_log :: "re_event list"

definition signal_of :: "TaxiFlyScanDevice \<Rightarrow> flag \<Rightarrow> EpicsSignal" where
  "signal_of dev f = (case f of Taxi \<Rightarrow> taxi dev | Fly \<Rightarrow> fly dev)"

fun await ::
    "TaxiFlyScanDevice \<Rightarrow> flag list \<Rightarrow> (flag \<times> string) list \<Rightarrow>
     re_event list \<times> (flag \<times> string) list option" where
  "await dev [] evs = ([], Some evs)"
| "await dev (p # ps) [] = ([], None)"
| "await dev (p # ps) ((f, v) # evs) =
     (let (saws, rest) =
            await dev (if v = done_str (signal_of dev f) then removeAll f (p # ps) else p # ps) evs
      in (Saw f v # saws, rest))"

fun RunEngine ::
    "TaxiFlyScanDevice \<Rightarrow> msg list \<Rightarrow> RunEngine_state \<Rightarrow> outcome \<times> RunEngine_state" where
  "RunEngine dev [] s = (Finished, s)"
| "RunEngine dev (Msg_set f v g # ms) s =
     RunEngine dev ms
       (s\<lparr>pending := (pending s)(g := pending s g @ [f]), re_log := re_log s @ [Wrote f v]\<rparr>)"
| "RunEngine dev (Msg_wait g # ms) s =
     (case await dev (pending s g) (remote s) of
        (saws, None) \<Rightarrow> (Blocked, s\<lparr>remote := [], re_log := re_log s @ saws\<rparr>)
      | (saws, Some rest) \<Rightarrow>
          RunEngine dev ms
            (s\<lparr>pending := (pending s)(g := []), remote := rest, re_log := re_log s @ saws\<rparr>))"
| "RunEngine dev (Msg_read f # ms) s = RunEngine dev ms (s\<lparr>re_log := re_log s @ [Acquired]\<rparr>)"
| "RunEngine dev (Msg_collect # ms) s = RunEngine dev ms (s\<lparr>re_log := re_log s @ [Acquired]\<rparr>)"

definition RE :: "TaxiFlyScanDevice \<Rightarrow> msg list \<Rightarrow> (flag \<times> string) list \<Rightarrow> outcome \<times> re_event list" where
  "RE dev ms evs =
     (let (out, s) = RunEngine dev ms \<lparr>pending = (\<lambda>g. []), remote = evs, re_log = []\<rparr>
      in (out, re_log s))"

definition is_Saw :: "re_event \<Rightarrow> bool" where
  "is_Saw e = (case e of Saw f v \<Rightarrow> True | _ \<Rightarrow> False)"

text \<open>
  \<open>ifly = TaxiFlyScanDevice("prj:tf:", name="ifly")\<close> on two busy records, and an IOC
  that runs each phase when asked.
\<close>

definition taxi_fly :: TaxiFlyScanDevice where
  "taxi_fly =
     \<lparr>taxi = \<lparr>enum_strs = [''Done'', ''Busy''], done_str = ''Done''\<rparr>,
      fly = \<lparr>enum_strs = [''Done'', ''Busy''], done_str = ''Done''\<rparr>\<rparr>"

definition ioc_posts :: "(flag \<times> string) list" where
  "ioc_posts = [(Taxi, ''Busy''), (Taxi, ''Done''), (Fly, ''Busy''), (Fly, ''Done'')]"

section \<open>Facts about the primitives\<close>

lemmas kick_defs = MyFlyer_kickoff_def BusyFlyerDevice_kickoff_def DeviceStatus_new_def
  subscribe_def time_time_def put_def finished_def Let_def

lemmas init_defs = ifly_def bflyer_def ifly_with_def bflyer_with_def MyFlyer_init_def
  BusyFlyerDevice_init_def waveform_def after_def

lemma str_in_iff: "str_in x s \<longleftrightarrow> (\<exists>p q. s = p @ x @ q)"
proof (induction s)
  case Nil
  then show ?case by auto
next
  case (Cons c s)
  have "(\<exists>p q. c # s = p @ x @ q) \<longleftrightarrow> (\<exists>q. c # s = x @ q) \<or> (\<exists>p q. s = p @ x @ q)"
  proof
    assume "\<exists>p q. c # s = p @ x @ q"
    then obtain p q where pq: "c # s = p @ x @ q" by blast
    show "(\<exists>q. c # s = x @ q) \<or> (\<exists>p q. s = p @ x @ q)"
      using pq by (cases p) auto
  next
    assume "(\<exists>q. c # s = x @ q) \<or> (\<exists>p q. s = p @ x @ q)"
    then show "\<exists>p q. c # s = p @ x @ q"
    proof
      assume "\<exists>q. c # s = x @ q"
      then show ?thesis by (metis append_Nil)
    next
      assume "\<exists>p q. s = p @ x @ q"
      then show ?thesis by (metis append_Cons)
    qed
  qed
  moreover have "(\<exists>q. c # s = x @ q) \<longleftrightarrow> take (length x) (c # s) = x"
    by (metis append_eq_conv_conj append_take_drop_id)
  ultimately show ?case using Cons by simp
qed

section \<open>Facts about the loops of collect\<close>

lemma for_yield_all2:
  assumes inv: "I st"
    and err: "\<And>i s e s'. I s \<Longrightarrow> body i s = Inl (e, s') \<Longrightarrow> \<not> g i \<and> e = IndexError \<and> I s'"
    and ok: "\<And>i s d s'. I s \<Longrightarrow> body i s = Inr (d, s') \<Longrightarrow> g i \<and> P i d \<and> I s'"
  shows "list_all2 P (takeWhile g ns) (yielded (for_yield body ns st)) \<and>
         raised (for_yield body ns st) = (if list_all g ns then None else Some IndexError) \<and>
         I (final (for_yield body ns st))"
  using inv
proof (induction ns arbitrary: st)
  case Nil
  then show ?case by simp
next
  case (Cons i ns)
  show ?case
  proof (cases "body i st")
    case (Inl a)
    obtain e s' where a: "a = (e, s')" by (cases a)
    from err [OF Cons.prems] Inl a have "\<not> g i" "e = IndexError" "I s'" by auto
    with Inl a show ?thesis by simp
  next
    case (Inr b)
    obtain d s' where b: "b = (d, s')" by (cases b)
    from ok [OF Cons.prems] Inr b have "g i" "P i d" "I s'" by auto
    with Inr b Cons.IH [of s'] show ?thesis by (simp add: Let_def)
  qed
qed

lemma takeWhile_less_upt: "takeWhile (\<lambda>i. i < m) [0 ..< n] = [0 ..< min n m]"
proof (cases "n \<le> m")
  case True
  then have "takeWhile (\<lambda>i. i < m) [0 ..< n] = [0 ..< n]"
    by (simp add: takeWhile_eq_all_conv)
  with True show ?thesis by (simp add: min_def)
next
  case False
  then have mn: "m < n" by simp
  then have "[0 ..< n] = [0 ..< m] @ m # [Suc m ..< n]"
    using upt_add_eq_append [of 0 m "n - m"] by (simp add: upt_conv_Cons)
  moreover have "takeWhile (\<lambda>i. i < m) ([0 ..< m] @ m # [Suc m ..< n]) =
      [0 ..< m] @ takeWhile (\<lambda>i. i < m) (m # [Suc m ..< n])"
    by (rule takeWhile_append2) simp
  ultimately have "takeWhile (\<lambda>i. i < m) [0 ..< n] = [0 ..< m]"
    by simp
  with mn show ?thesis by (simp add: min_def)
qed

lemma list_all_less_upt: "list_all (\<lambda>i. i < m) [0 ..< n] \<longleftrightarrow> n \<le> m"
  by (auto simp add: list_all_iff)

lemma MyFlyer_collect_body_Inl:
  "MyFlyer_collect_body i st = Inl (e, st') \<Longrightarrow>
   \<not> i < min (length (wave (tArr st))) (min (length (wave (xArr st))) (length (wave (yArr st)))) \<and>
   e = IndexError \<and> st' = st"
  by (auto simp add: MyFlyer_collect_body_def getitem_def time_time_def Let_def split: if_splits)

lemma MyFlyer_collect_body_Inr:
  "MyFlyer_collect_body i st = Inr (d, st') \<Longrightarrow>
   i < min (length (wave (tArr st))) (min (length (wave (xArr st))) (length (wave (yArr st)))) \<and>
   d = \<lparr>time = now st (ticks st),
        data = [''ifly_tArr'' \<mapsto> now st (Suc (ticks st)) - t0 st,
                ''ifly_xArr'' \<mapsto> wave (xArr st) ! i,
                ''ifly_yArr'' \<mapsto> wave (yArr st) ! i],
        timestamps = [''ifly_tArr'' \<mapsto> wave (tArr st) ! i,
                      ''ifly_xArr'' \<mapsto> wave (tArr st) ! i,
                      ''ifly_yArr'' \<mapsto> wave (tArr st) ! i]\<rparr> \<and>
   st' = st\<lparr>ticks := Suc (Suc (ticks st)), trace := trace st @ [Time_time, Time_time]\<rparr>"
  by (auto simp add: MyFlyer_collect_body_def getitem_def time_time_def Let_def split: if_splits)


lemma fill_item_waves:
  "fill_item i t [T, X, Y] (Map.empty, Map.empty) =
     (if i < min (length (wave T)) (min (length (wave X)) (length (wave Y)))
      then Inr ([name T \<mapsto> wave T ! i, name X \<mapsto> wave X ! i, name Y \<mapsto> wave Y ! i],
                [name T \<mapsto> t, name X \<mapsto> t, name Y \<mapsto> t])
      else Inl IndexError)"
  by (simp add: getitem_def)

lemma BusyFlyerDevice_collect_body_Inl:
  "BusyFlyerDevice_collect_body i st = Inl (e, st') \<Longrightarrow>
   \<not> i < min (length (wave (wtime st))) (min (length (wave (axis st))) (length (wave (signal st)))) \<and>
   e = IndexError \<and> st' = st\<lparr>ticks := Suc (ticks st), trace := trace st @ [Time_time]\<rparr>"
  by (auto simp add: BusyFlyerDevice_collect_body_def waves_def fill_item_waves time_time_def
      Let_def simp del: fill_item.simps split: if_splits option.splits)

lemma BusyFlyerDevice_collect_body_Inr:
  "BusyFlyerDevice_collect_body i st = Inr (d, st') \<Longrightarrow>
   i < min (length (wave (wtime st))) (min (length (wave (axis st))) (length (wave (signal st)))) \<and>
   time d = now st (Suc (ticks st)) \<and>
   dom (data d) = {name (wtime st), name (axis st), name (signal st)} \<and>
   timestamps d = [name (wtime st) \<mapsto> now st (ticks st), name (axis st) \<mapsto> now st (ticks st),
                   name (signal st) \<mapsto> now st (ticks st)] \<and>
   (distinct [name (wtime st), name (axis st), name (signal st)] \<longrightarrow>
      data d = [name (wtime st) \<mapsto> wave (wtime st) ! i - t0 st,
                name (axis st) \<mapsto> wave (axis st) ! i,
                name (signal st) \<mapsto> wave (signal st) ! i]) \<and>
   st' = st\<lparr>ticks := Suc (Suc (ticks st)), trace := trace st @ [Time_time, Time_time]\<rparr>"
  by (auto simp add: BusyFlyerDevice_collect_body_def waves_def fill_item_waves time_time_def
      Let_def simp del: fill_item.simps split: if_splits option.splits)


lemma MyFlyer_collect_run:
  fixes st :: "('n::minus) MyFlyer"
  shows "list_all2
           (\<lambda>i d. dom (data d) = {''ifly_tArr'', ''ifly_xArr'', ''ifly_yArr''} \<and>
                  data d ''ifly_xArr'' = Some (wave (xArr st) ! i) \<and>
                  data d ''ifly_yArr'' = Some (wave (yArr st) ! i) \<and>
                  timestamps d = [''ifly_tArr'' \<mapsto> wave (tArr st) ! i,
                                  ''ifly_xArr'' \<mapsto> wave (tArr st) ! i,
                                  ''ifly_yArr'' \<mapsto> wave (tArr st) ! i])
           [0 ..< min (length (wave (tArr st)))
                    (min (length (wave (xArr st))) (length (wave (yArr st))))]
           (yielded (MyFlyer_collect st)) \<and>
         raised (MyFlyer_collect st) =
           (if length (wave (tArr st)) \<le> length (wave (xArr st)) \<and>
               length (wave (tArr st)) \<le> length (wave (yArr st))
            then None else Some IndexError) \<and>
         completion_status (final (MyFlyer_collect st)) = None \<and>
         tArr (final (MyFlyer_collect st)) = tArr st \<and>
         xArr (final (MyFlyer_collect st)) = xArr st \<and>
         yArr (final (MyFlyer_collect st)) = yArr st \<and>
         subscribers (final (MyFlyer_collect st)) = subscribers st \<and>
         statuses (final (MyFlyer_collect st)) = statuses st"
proof -
  let ?m = "min (length (wave (tArr st))) (min (length (wave (xArr st))) (length (wave (yArr st))))"
  let ?I = "\<lambda>s :: 'n MyFlyer. tArr s = tArr st \<and> xArr s = xArr st \<and> yArr s = yArr st \<and>
              completion_status s = None \<and> subscribers s = subscribers st \<and>
              statuses s = statuses st"
  let ?P = "\<lambda>i (d :: 'n event). dom (data d) = {''ifly_tArr'', ''ifly_xArr'', ''ifly_yArr''} \<and>
                  data d ''ifly_xArr'' = Some (wave (xArr st) ! i) \<and>
                  data d ''ifly_yArr'' = Some (wave (yArr st) ! i) \<and>
                  timestamps d = [''ifly_tArr'' \<mapsto> wave (tArr st) ! i,
                                  ''ifly_xArr'' \<mapsto> wave (tArr st) ! i,
                                  ''ifly_yArr'' \<mapsto> wave (tArr st) ! i]"
  let ?s = "st\<lparr>completion_status := None\<rparr>"
  have run: "list_all2 ?P (takeWhile (\<lambda>i. i < ?m) ns) (yielded (for_yield MyFlyer_collect_body ns ?s)) \<and>
      raised (for_yield MyFlyer_collect_body ns ?s) =
        (if list_all (\<lambda>i. i < ?m) ns then None else Some IndexError) \<and>
      ?I (final (for_yield MyFlyer_collect_body ns ?s))" for ns
  proof (rule for_yield_all2 [where I = ?I])
    show "?I ?s" by simp
  next
    fix i s e s'
    assume "?I s" and "MyFlyer_collect_body i s = Inl (e, s')"
    then show "\<not> i < ?m \<and> e = IndexError \<and> ?I s'"
      using MyFlyer_collect_body_Inl [of i s e s'] by simp
  next
    fix i s d s'
    assume "?I s" and "MyFlyer_collect_body i s = Inr (d, s')"
    then show "i < ?m \<and> ?P i d \<and> ?I s'"
      using MyFlyer_collect_body_Inr [of i s d s'] by auto
  qed
  note r = run [of "[0 ..< length (wave (tArr st))]", unfolded takeWhile_less_upt list_all_less_upt]
  show ?thesis
    using r by (simp add: MyFlyer_collect_def)
qed

lemma BusyFlyerDevice_collect_run:
  fixes st :: "('n::minus) BusyFlyerDevice"
  shows "list_all2
           (\<lambda>i d. dom (data d) = {name (wtime st), name (axis st), name (signal st)} \<and>
                  dom (timestamps d) = {name (wtime st), name (axis st), name (signal st)} \<and>
                  (distinct [name (wtime st), name (axis st), name (signal st)] \<longrightarrow>
                     data d = [name (wtime st) \<mapsto> wave (wtime st) ! i - t0 st,
                               name (axis st) \<mapsto> wave (axis st) ! i,
                               name (signal st) \<mapsto> wave (signal st) ! i]))
           [0 ..< min (number_read (wtime st)) (min (length (wave (wtime st)))
                    (min (length (wave (axis st))) (length (wave (signal st)))))]
           (yielded (BusyFlyerDevice_collect st)) \<and>
         raised (BusyFlyerDevice_collect st) =
           (if number_read (wtime st) \<le> length (wave (wtime st)) \<and>
               number_read (wtime st) \<le> length (wave (axis st)) \<and>
               number_read (wtime st) \<le> length (wave (signal st))
            then None else Some IndexError) \<and>
         complete_status (final (BusyFlyerDevice_collect st)) = None \<and>
         wtime (final (BusyFlyerDevice_collect st)) = wtime st \<and>
         axis (final (BusyFlyerDevice_collect st)) = axis st \<and>
         signal (final (BusyFlyerDevice_collect st)) = signal st \<and>
         subscribers (final (BusyFlyerDevice_collect st)) = subscribers st \<and>
         statuses (final (BusyFlyerDevice_collect st)) = statuses st"
proof -
  let ?m = "min (length (wave (wtime st))) (min (length (wave (axis st))) (length (wave (signal st))))"
  let ?I = "\<lambda>s :: 'n BusyFlyerDevice. wtime s = wtime st \<and> axis s = axis st \<and> signal s = signal st \<and>
              complete_status s = None \<and> subscribers s = subscribers st \<and>
              statuses s = statuses st \<and> t0 s = t0 st"
  let ?P = "\<lambda>i (d :: 'n event). dom (data d) = {name (wtime st), name (axis st), name (signal st)} \<and>
                  dom (timestamps d) = {name (wtime st), name (axis st), name (signal st)} \<and>
                  (distinct [name (wtime st), name (axis st), name (signal st)] \<longrightarrow>
                     data d = [name (wtime st) \<mapsto> wave (wtime st) ! i - t0 st,
                               name (axis st) \<mapsto> wave (axis st) ! i,
                               name (signal st) \<mapsto> wave (signal st) ! i])"
  let ?s = "st\<lparr>complete_status := None\<rparr>"
  have run: "list_all2 ?P (takeWhile (\<lambda>i. i < ?m) ns)
        (yielded (for_yield BusyFlyerDevice_collect_body ns ?s)) \<and>
      raised (for_yield BusyFlyerDevice_collect_body ns ?s) =
        (if list_all (\<lambda>i. i < ?m) ns then None else Some IndexError) \<and>
      ?I (final (for_yield BusyFlyerDevice_collect_body ns ?s))" for ns
  proof (rule for_yield_all2 [where I = ?I])
    show "?I ?s" by simp
  next
    fix i s e s'
    assume "?I s" and "BusyFlyerDevice_collect_body i s = Inl (e, s')"
    then show "\<not> i < ?m \<and> e = IndexError \<and> ?I s'"
      using BusyFlyerDevice_collect_body_Inl [of i s e s'] by simp
  next
    fix i s d s'
    assume "?I s" and "BusyFlyerDevice_collect_body i s = Inr (d, s')"
    then show "i < ?m \<and> ?P i d \<and> ?I s'"
      using BusyFlyerDevice_collect_body_Inr [of i s d s'] by auto
  qed
  note r = run [of "[0 ..< number_read (wtime st)]", unfolded takeWhile_less_upt list_all_less_upt]
  show ?thesis
    using r by (simp add: BusyFlyerDevice_collect_def)
qed

lemmas MyFlyer_collect_all2 = MyFlyer_collect_run [THEN conjunct1]
lemmas MyFlyer_collect_raised = MyFlyer_collect_run [THEN conjunct2, THEN conjunct1]
lemmas MyFlyer_collect_status = MyFlyer_collect_run [THEN conjunct2, THEN conjunct2, THEN conjunct1]
lemmas MyFlyer_collect_tArr =
  MyFlyer_collect_run [THEN conjunct2, THEN conjunct2, THEN conjunct2, THEN conjunct1]
lemmas MyFlyer_collect_xArr =
  MyFlyer_collect_run [THEN conjunct2, THEN conjunct2, THEN conjunct2, THEN conjunct2, THEN conjunct1]
lemmas MyFlyer_collect_yArr =
  MyFlyer_collect_run [THEN conjunct2, THEN conjunct2, THEN conjunct2, THEN conjunct2,
    THEN conjunct2, THEN conjunct1]
lemmas MyFlyer_collect_subscribers =
  MyFlyer_collect_run [THEN conjunct2, THEN conjunct2, THEN conjunct2, THEN conjunct2,
    THEN conjunct2, THEN conjunct2, THEN conjunct1]
lemmas MyFlyer_collect_statuses =
  MyFlyer_collect_run [THEN conjunct2, THEN conjunct2, THEN conjunct2, THEN conjunct2,
    THEN conjunct2, THEN conjunct2, THEN conjunct2]

lemmas BusyFlyerDevice_collect_all2 = BusyFlyerDevice_collect_run [THEN conjunct1]
lemmas BusyFlyerDevice_collect_raised = BusyFlyerDevice_collect_run [THEN conjunct2, THEN conjunct1]
lemmas BusyFlyerDevice_collect_status =
  BusyFlyerDevice_collect_run [THEN conjunct2, THEN conjunct2, THEN conjunct1]
lemmas BusyFlyerDevice_collect_wtime =
  BusyFlyerDevice_collect_run [THEN conjunct2, THEN conjunct2, THEN conjunct2, THEN conjunct1]
lemmas BusyFlyerDevice_collect_axis =
  BusyFlyerDevice_collect_run [THEN conjunct2, THEN conjunct2, THEN conjunct2, THEN conjunct2,
    THEN conjunct1]
lemmas BusyFlyerDevice_collect_signal =
  BusyFlyerDevice_collect_run [THEN conjunct2, THEN conjunct2, THEN conjunct2, THEN conjunct2,
    THEN conjunct2, THEN conjunct1]
lemmas BusyFlyerDevice_collect_subscribers =
  BusyFlyerDevice_collect_run [THEN conjunct2, THEN conjunct2, THEN conjunct2, THEN conjunct2,
    THEN conjunct2, THEN conjunct2, THEN conjunct1]
lemmas BusyFlyerDevice_collect_statuses =
  BusyFlyerDevice_collect_run [THEN conjunct2, THEN conjunct2, THEN conjunct2, THEN conjunct2,
    THEN conjunct2, THEN conjunct2, THEN conjunct2]

lemma MyFlyer_collect_length:
  fixes st :: "('n::minus) MyFlyer"
  shows "length (yielded (MyFlyer_collect st)) =
    min (length (wave (tArr st))) (min (length (wave (xArr st))) (length (wave (yArr st))))"
  using list_all2_lengthD [OF MyFlyer_collect_all2 [of st]] by simp

lemma BusyFlyerDevice_collect_length:
  fixes st :: "('n::minus) BusyFlyerDevice"
  shows "length (yielded (BusyFlyerDevice_collect st)) =
    min (number_read (wtime st)) (min (length (wave (wtime st)))
      (min (length (wave (axis st))) (length (wave (signal st)))))"
  using list_all2_lengthD [OF BusyFlyerDevice_collect_all2 [of st]] by simp

lemma MyFlyer_collect_nth:
  fixes st :: "('n::minus) MyFlyer"
  assumes "k < length (yielded (MyFlyer_collect st))"
  shows "dom (data (yielded (MyFlyer_collect st) ! k)) = {''ifly_tArr'', ''ifly_xArr'', ''ifly_yArr''} \<and>
         data (yielded (MyFlyer_collect st) ! k) ''ifly_xArr'' = Some (wave (xArr st) ! k) \<and>
         data (yielded (MyFlyer_collect st) ! k) ''ifly_yArr'' = Some (wave (yArr st) ! k) \<and>
         timestamps (yielded (MyFlyer_collect st) ! k) =
           [''ifly_tArr'' \<mapsto> wave (tArr st) ! k, ''ifly_xArr'' \<mapsto> wave (tArr st) ! k,
            ''ifly_yArr'' \<mapsto> wave (tArr st) ! k]"
proof -
  have "k < min (length (wave (tArr st))) (min (length (wave (xArr st))) (length (wave (yArr st))))"
    using assms unfolding MyFlyer_collect_length .
  then have "[0 ..< min (length (wave (tArr st)))
      (min (length (wave (xArr st))) (length (wave (yArr st))))] ! k = k"
    by simp
  with list_all2_nthD2 [OF MyFlyer_collect_all2 [of st] assms] show ?thesis
    by (simp only:)
qed

lemma BusyFlyerDevice_collect_nth:
  fixes st :: "('n::minus) BusyFlyerDevice"
  assumes "k < length (yielded (BusyFlyerDevice_collect st))"
    and "distinct [name (wtime st), name (axis st), name (signal st)]"
  shows "data (yielded (BusyFlyerDevice_collect st) ! k) =
           [name (wtime st) \<mapsto> wave (wtime st) ! k - t0 st,
            name (axis st) \<mapsto> wave (axis st) ! k,
            name (signal st) \<mapsto> wave (signal st) ! k]"
proof -
  have "k < min (number_read (wtime st)) (min (length (wave (wtime st)))
      (min (length (wave (axis st))) (length (wave (signal st)))))"
    using assms(1) unfolding BusyFlyerDevice_collect_length .
  then have "[0 ..< min (number_read (wtime st)) (min (length (wave (wtime st)))
      (min (length (wave (axis st))) (length (wave (signal st)))))] ! k = k"
    by simp
  with list_all2_nthD2 [OF BusyFlyerDevice_collect_all2 [of st] assms(1)] assms(2) show ?thesis
    by (simp only:)
qed

lemma BusyFlyerDevice_collect_dom:
  fixes st :: "('n::minus) BusyFlyerDevice"
  assumes "k < length (yielded (BusyFlyerDevice_collect st))"
  shows "dom (data (yielded (BusyFlyerDevice_collect st) ! k)) =
           {name (wtime st), name (axis st), name (signal st)}"
  using list_all2_nthD2 [OF BusyFlyerDevice_collect_all2 [of st] assms] by (rule conjunct1)

section \<open>Facts about one flight\<close>

lemmas flown_defs = MyFlyer_flown_def BusyFlyerDevice_flown_def store_def MyFlyer_monitor_def
  BusyFlyerDevice_monitor_def MyFlyer_cb_def BusyFlyerDevice_cb_def BusyStatus_done_def
  BusyStatus_busy_def

lemma upt3: "[0 ..< 3] = [0, 1, 2]"
  by (simp add: upt_conv_Cons)







section \<open>Facts about the plan\<close>

lemma await_one:
  "await dev [p] evs = (saws, rest) \<Longrightarrow>
   list_all is_Saw saws \<and>
   (case rest of
      None \<Rightarrow> Saw p (done_str (signal_of dev p)) \<notin> set saws
    | Some evs' \<Rightarrow> saws \<noteq> [] \<and> last saws = Saw p (done_str (signal_of dev p)))"
proof (induction evs arbitrary: saws rest)
  case Nil
  then show ?case by (simp add: is_Saw_def)
next
  case (Cons ev evs)
  obtain f v where ev: "ev = (f, v)" by (cases ev)
  show ?case
  proof (cases "v = done_str (signal_of dev f) \<and> f = p")
    case True
    with Cons.prems ev show ?thesis by (auto simp add: is_Saw_def)
  next
    case False
    obtain saws' rest' where a: "await dev [p] evs = (saws', rest')" by (cases "await dev [p] evs")
    from False have "(if v = done_str (signal_of dev f) then removeAll f [p] else [p]) = [p]"
      by auto
    with Cons.prems ev a have s: "saws = Saw f v # saws'" "rest = rest'"
      by (simp_all add: Let_def)
    from Cons.IH [OF a] False s show ?thesis
      by (auto simp add: is_Saw_def split: option.splits)
  qed
qed

lemma RE_plan:
  "RE dev [Msg_set Taxi v1 g1, Msg_wait g1, Msg_set Fly v2 g2, Msg_wait g2] evs =
     (case await dev [Taxi] evs of
        (saws1, None) \<Rightarrow> (Blocked, Wrote Taxi v1 # saws1)
      | (saws1, Some rest) \<Rightarrow>
          (case await dev [Fly] rest of
             (saws2, None) \<Rightarrow> (Blocked, Wrote Taxi v1 # saws1 @ Wrote Fly v2 # saws2)
           | (saws2, Some rest2) \<Rightarrow> (Finished, Wrote Taxi v1 # saws1 @ Wrote Fly v2 # saws2)))"
  by (simp add: RE_def split: prod.splits option.splits)


lemma is_Saw_simps:
  "is_Saw (Wrote f v) = False" "is_Saw Acquired = False" "is_Saw (Saw f v) = True"
  by (simp_all add: is_Saw_def)

lemma log_blocked:
  assumes "list_all is_Saw a" and "j < length (Wrote Taxi v1 # a)"
  shows "(Wrote Taxi v1 # a) ! j \<noteq> Wrote Fly v"
proof (cases j)
  case 0
  then show ?thesis by simp
next
  case (Suc k)
  with assms have "is_Saw (a ! k)" by (simp add: list_all_length)
  with Suc show ?thesis by (auto simp add: is_Saw_simps)
qed

lemma log_through:
  assumes a: "list_all is_Saw a" and b: "list_all is_Saw b"
    and ne: "a \<noteq> []" and la: "last a = Saw Taxi d"
    and j: "j < length (Wrote Taxi v1 # a @ Wrote Fly v2 # b)"
    and w: "(Wrote Taxi v1 # a @ Wrote Fly v2 # b) ! j = Wrote Fly v"
  shows "\<exists>i. 0 < i \<and> i < j \<and> (Wrote Taxi v1 # a @ Wrote Fly v2 # b) ! i = Saw Taxi d"
proof -
  have j0: "j \<noteq> 0" using w by (cases j) auto
  then obtain k where k: "j = Suc k" by (cases j) auto
  have k1: "\<not> k < length a"
  proof
    assume "k < length a"
    then have "is_Saw (a ! k)" "(Wrote Taxi v1 # a @ Wrote Fly v2 # b) ! j = a ! k"
      using a k by (simp_all add: list_all_length nth_append)
    with w show False by (auto simp add: is_Saw_simps)
  qed
  have k2: "\<not> length a < k"
  proof
    assume g: "length a < k"
    then obtain m where m: "k = Suc (length a + m)"
      by (metis add_Suc_right less_iff_Suc_add)
    with j k have "m < length b" by simp
    then have "is_Saw (b ! m)" using b by (simp add: list_all_length)
    moreover have "(Wrote Taxi v1 # a @ Wrote Fly v2 # b) ! j = b ! m"
      using k m by (simp add: nth_append)
    ultimately have "is_Saw (Wrote Fly v)" using w by simp
    then show False by (simp add: is_Saw_simps)
  qed
  from k1 k2 have kk: "k = length a" by simp
  have "(Wrote Taxi v1 # a @ Wrote Fly v2 # b) ! length a = last a"
    using ne by (cases a rule: rev_cases) (simp_all add: nth_append)
  moreover have "0 < length a" using ne by simp
  ultimately show ?thesis using la kk k by auto
qed

lemma RE_mv:
  "snd (RE dev [Msg_set Taxi v1 g1, Msg_wait g1] evs) = Wrote Taxi v1 # fst (await dev [Taxi] evs)"
  by (simp add: RE_def split: prod.splits option.splits)

lemma RE_plan_log:
  "snd (RE dev [Msg_set Taxi v1 g1, Msg_wait g1, Msg_set Fly v2 g2, Msg_wait g2] evs) =
     (case await dev [Taxi] evs of
        (saws1, None) \<Rightarrow> Wrote Taxi v1 # saws1
      | (saws1, Some rest) \<Rightarrow> Wrote Taxi v1 # saws1 @ Wrote Fly v2 # fst (await dev [Fly] rest))"
  by (simp add: RE_plan split: prod.splits option.splits)

lemma plan_cases:
  "plan dev g1 g2 =
     (if \<not> 1 < length (enum_strs (taxi dev)) then
        \<lparr>yielded = [], raised = Some IndexError, final = ()\<rparr>
      else if \<not> 1 < length (enum_strs (fly dev)) then
        \<lparr>yielded = [Msg_set Taxi (enum_strs (taxi dev) ! 1) g1, Msg_wait g1],
         raised = Some IndexError, final = ()\<rparr>
      else
        \<lparr>yielded = [Msg_set Taxi (enum_strs (taxi dev) ! 1) g1, Msg_wait g1,
                    Msg_set Fly (enum_strs (fly dev) ! 1) g2, Msg_wait g2],
         raised = None, final = ()\<rparr>)"
  by (simp add: plan_def getitem_def mv_def)

lemma log_order:
  fixes L :: "re_event list"
  assumes "L = [] \<or> (\<exists>a. L = Wrote Taxi v1 # a \<and> list_all is_Saw a) \<or>
           (\<exists>a b. L = Wrote Taxi v1 # a @ Wrote Fly v2 # b \<and> list_all is_Saw a \<and>
              list_all is_Saw b \<and> a \<noteq> [] \<and> last a = Saw Taxi d)"
  shows "Acquired \<notin> set L \<and>
         (\<forall>j < length L. (\<exists>v. L ! j = Wrote Fly v) \<longrightarrow>
            L ! 0 = Wrote Taxi v1 \<and> (\<exists>i. 0 < i \<and> i < j \<and> L ! i = Saw Taxi d))"
  using assms
proof (elim disjE exE conjE)
  assume "L = []"
  then show ?thesis by simp
next
  fix a
  assume L: "L = Wrote Taxi v1 # a" and sa: "list_all is_Saw a"
  have "\<forall>e \<in> set a. e \<noteq> Acquired"
    using sa by (auto simp add: list_all_iff is_Saw_simps)
  then show ?thesis
    unfolding L using log_blocked [OF sa] by auto
next
  fix a b
  assume L: "L = Wrote Taxi v1 # a @ Wrote Fly v2 # b"
    and sa: "list_all is_Saw a" and sb: "list_all is_Saw b"
    and ne: "a \<noteq> []" and la: "last a = Saw Taxi d"
  have "\<forall>e \<in> set a \<union> set b. e \<noteq> Acquired"
    using sa sb by (auto simp add: list_all_iff is_Saw_simps)
  then have acq: "Acquired \<notin> set (Wrote Taxi v1 # a @ Wrote Fly v2 # b)"
    by auto
  show ?thesis
    unfolding L using log_through [OF sa sb ne la] acq by auto
qed

lemma plan_log_shape:
  "snd (RE dev (yielded (plan dev g1 g2)) evs) = [] \<or>
   (\<exists>a. snd (RE dev (yielded (plan dev g1 g2)) evs) = Wrote Taxi (enum_strs (taxi dev) ! 1) # a \<and>
      list_all is_Saw a) \<or>
   (\<exists>a b. snd (RE dev (yielded (plan dev g1 g2)) evs) =
        Wrote Taxi (enum_strs (taxi dev) ! 1) # a @ Wrote Fly (enum_strs (fly dev) ! 1) # b \<and>
      list_all is_Saw a \<and> list_all is_Saw b \<and> a \<noteq> [] \<and>
      last a = Saw Taxi (done_str (taxi dev)))"
proof -
  obtain saws1 rest1 where a1: "await dev [Taxi] evs = (saws1, rest1)"
    by (cases "await dev [Taxi] evs")
  note s1 = await_one [OF a1]
  have sa: "list_all is_Saw saws1" using s1 by simp
  have d1: "done_str (signal_of dev Taxi) = done_str (taxi dev)"
    by (simp add: signal_of_def)
  consider (none) "\<not> 1 < length (enum_strs (taxi dev))"
    | (one) "1 < length (enum_strs (taxi dev))" "\<not> 1 < length (enum_strs (fly dev))"
    | (both) "1 < length (enum_strs (taxi dev))" "1 < length (enum_strs (fly dev))"
    by blast
  then show ?thesis
  proof cases
    case none
    then have "snd (RE dev (yielded (plan dev g1 g2)) evs) = []"
      by (simp add: plan_cases RE_def)
    then show ?thesis by simp
  next
    case one
    then have "snd (RE dev (yielded (plan dev g1 g2)) evs) =
        Wrote Taxi (enum_strs (taxi dev) ! 1) # saws1"
      using a1 by (simp add: plan_cases RE_mv)
    with sa show ?thesis by blast
  next
    case both
    then have y: "yielded (plan dev g1 g2) =
        [Msg_set Taxi (enum_strs (taxi dev) ! 1) g1, Msg_wait g1,
         Msg_set Fly (enum_strs (fly dev) ! 1) g2, Msg_wait g2]"
      by (simp add: plan_cases)
    show ?thesis
    proof (cases rest1)
      case None
      then have "snd (RE dev (yielded (plan dev g1 g2)) evs) =
          Wrote Taxi (enum_strs (taxi dev) ! 1) # saws1"
        unfolding y using a1 by (simp add: RE_plan_log)
      with sa show ?thesis by blast
    next
      case (Some rest)
      obtain saws2 rest2 where a2: "await dev [Fly] rest = (saws2, rest2)"
        by (cases "await dev [Fly] rest")
      have sb: "list_all is_Saw saws2" using await_one [OF a2] by simp
      have ne: "saws1 \<noteq> []" and la: "last saws1 = Saw Taxi (done_str (taxi dev))"
        using s1 Some d1 by simp_all
      have "snd (RE dev (yielded (plan dev g1 g2)) evs) =
          Wrote Taxi (enum_strs (taxi dev) ! 1) # saws1 @
          Wrote Fly (enum_strs (fly dev) ! 1) # saws2"
        unfolding y using a1 a2 Some by (simp add: RE_plan_log)
      with sa sb ne la show ?thesis by blast
    qed
  qed
qed

section \<open>Facts about callbacks and the two instances\<close>

lemma MyFlyer_cb_finishes_iff:
  assumes "completion_status st = Some r"
    and "statuses st r = Some \<lparr>st_done = False, st_success = False\<rparr>"
  shows "statuses (projr (MyFlyer_cb st)) r = Some \<lparr>st_done = True, st_success = True\<rparr> \<longleftrightarrow>
         (\<exists>p q. ''Done'' = p @ busy_value st @ q)"
  using assms
  by (simp add: MyFlyer_cb_def finished_def BusyStatus_done_def
      str_in_iff [of "busy_value st" "''Done''", symmetric])

lemma cb_on_record_states:
  "str_in BusyStatus_done BusyStatus_done" "\<not> str_in BusyStatus_busy BusyStatus_done"
  by (simp_all add: BusyStatus_done_def BusyStatus_busy_def)

lemma finished_subscribers: "subscribers (finished r ok st) = subscribers st"
  by (simp add: finished_def split: option.splits)

lemma MyFlyer_cb_subscribers: "MyFlyer_cb st = Inr st' \<Longrightarrow> subscribers st' = subscribers st"
  by (auto simp add: MyFlyer_cb_def finished_subscribers split: if_splits option.splits)

lemma BusyFlyerDevice_cb_subscribers:
  "BusyFlyerDevice_cb st = Inr st' \<Longrightarrow> subscribers st' = subscribers st"
  by (auto simp add: BusyFlyerDevice_cb_def finished_subscribers split: if_splits option.splits)

lemma run_callbacks_subscribers:
  assumes "\<And>s s'. cb s = Inr s' \<Longrightarrow> subscribers s' = subscribers s"
  shows "subscribers (run_callbacks cb cs st) = subscribers st"
proof (induction cs arbitrary: st)
  case Nil
  then show ?case by simp
next
  case (Cons c cs)
  show ?case
  proof (cases "cb st")
    case (Inl e)
    then show ?thesis using Cons.IH [of st] by simp
  next
    case (Inr s')
    then show ?thesis using Cons.IH [of s'] assms [OF Inr] by simp
  qed
qed

lemma monitor_subscribers:
  "subscribers (MyFlyer_monitor v st) = subscribers st"
  "subscribers (BusyFlyerDevice_monitor v bst) = subscribers bst"
  by (simp_all add: MyFlyer_monitor_def BusyFlyerDevice_monitor_def
      run_callbacks_subscribers [where cb = MyFlyer_cb, OF MyFlyer_cb_subscribers]
      run_callbacks_subscribers [where cb = BusyFlyerDevice_cb, OF BusyFlyerDevice_cb_subscribers])

lemma ifly_flown_state:
  "ifly_flown =
     \<lparr>statuses = [1 \<mapsto> \<lparr>st_done = True, st_success = True\<rparr>,
                   0 \<mapsto> \<lparr>st_done = True, st_success = True\<rparr>],
      next_status = 2, busy_value = ''Done'', subscribers = [0], next_cid = 1,
      now = (\<lambda>k. 100 + int k), ticks = 1,
      trace = [New_status 0, Subscribe 0, Time_time, Put ''Busy'', New_status 1],
      t0 = 100, completion_status = Some 0,
      tArr = waveform ''ifly_tArr'' [101, 102, 103],
      xArr = waveform ''ifly_xArr'' [7, 8, 9],
      yArr = waveform ''ifly_yArr'' [4, 5, 6]\<rparr>"
  by (simp add: ifly_flown_def flown_defs kick_defs init_defs)

lemma ifly_again_state:
  "ifly_again =
     \<lparr>statuses = [1 \<mapsto> \<lparr>st_done = True, st_success = True\<rparr>,
                   0 \<mapsto> \<lparr>st_done = True, st_success = True\<rparr>,
                   2 \<mapsto> \<lparr>st_done = False, st_success = False\<rparr>,
                   3 \<mapsto> \<lparr>st_done = True, st_success = True\<rparr>],
      next_status = 4, busy_value = ''Done'', subscribers = [0, 1], next_cid = 2,
      now = (\<lambda>k. 100 + int k), ticks = 8,
      trace = [New_status 0, Subscribe 0, Time_time, Put ''Busy'', New_status 1,
               Time_time, Time_time, Time_time, Time_time, Time_time, Time_time,
               New_status 2, Subscribe 1, Time_time, Put ''Busy'', New_status 3],
      t0 = 107, completion_status = Some 2,
      tArr = waveform ''ifly_tArr'' [101, 102, 103],
      xArr = waveform ''ifly_xArr'' [7, 8, 9],
      yArr = waveform ''ifly_yArr'' [4, 5, 6]\<rparr>"
  by (simp add: ifly_again_def ifly_flown_state MyFlyer_collect_def MyFlyer_collect_body_def
      getitem_def upt3 kick_defs waveform_def after_def BusyStatus_busy_def)


lemma bflyer_flown_state:
  "bflyer_flown =
     \<lparr>statuses = [1 \<mapsto> \<lparr>st_done = True, st_success = True\<rparr>,
                   0 \<mapsto> \<lparr>st_done = True, st_success = True\<rparr>],
      next_status = 2, busy_value = ''Done'', subscribers = [0], next_cid = 1,
      now = (\<lambda>k. 100 + int k), ticks = 2,
      trace = [Time_time, New_status 0, Time_time, Put ''Busy'', Subscribe 0, New_status 1],
      t0 = 101, complete_status = Some 0,
      wtime = waveform ''bflyer_time'' [101, 102, 103],
      axis = waveform ''bflyer_axis'' [7, 8, 9],
      signal = waveform ''bflyer_signal'' [4, 5, 6]\<rparr>"
  by (simp add: bflyer_flown_def flown_defs kick_defs init_defs)

lemma bflyer_again_state:
  "bflyer_again =
     \<lparr>statuses = [1 \<mapsto> \<lparr>st_done = True, st_success = True\<rparr>,
                   0 \<mapsto> \<lparr>st_done = True, st_success = True\<rparr>,
                   2 \<mapsto> \<lparr>st_done = False, st_success = False\<rparr>,
                   3 \<mapsto> \<lparr>st_done = True, st_success = True\<rparr>],
      next_status = 4, busy_value = ''Done'', subscribers = [0, 1], next_cid = 2,
      now = (\<lambda>k. 100 + int k), ticks = 9,
      trace = [Time_time, New_status 0, Time_time, Put ''Busy'', Subscribe 0, New_status 1,
               Time_time, Time_time, Time_time, Time_time, Time_time, Time_time,
               New_status 2, Time_time, Put ''Busy'', Subscribe 1, New_status 3],
      t0 = 108, complete_status = Some 2,
      wtime = waveform ''bflyer_time'' [101, 102, 103],
      axis = waveform ''bflyer_axis'' [7, 8, 9],
      signal = waveform ''bflyer_signal'' [4, 5, 6]\<rparr>"
  by (simp add: bflyer_again_def bflyer_flown_state BusyFlyerDevice_collect_def
      BusyFlyerDevice_collect_body_def waves_def getitem_def upt3 kick_defs waveform_def
      after_def BusyStatus_busy_def)

section \<open>Facts about what a cycle keeps\<close>

lemma for_yield_preserves:
  assumes "\<And>i s e s'. body i s = Inl (e, s') \<Longrightarrow> f s' = f s"
    and "\<And>i s d s'. body i s = Inr (d, s') \<Longrightarrow> f s' = f s"
  shows "f (final (for_yield body ns st)) = f st"
proof (induction ns arbitrary: st)
  case Nil
  then show ?case by simp
next
  case (Cons i ns)
  show ?case
  proof (cases "body i st")
    case (Inl a)
    obtain e s' where a: "a = (e, s')" by (cases a)
    with Inl assms(1) [of i st e s'] show ?thesis by simp
  next
    case (Inr b)
    obtain d s' where b: "b = (d, s')" by (cases b)
    with Inr assms(2) [of i st d s'] Cons.IH [of s'] show ?thesis by (simp add: Let_def)
  qed
qed

lemma collect_busy_value:
  fixes st :: "('n::minus) MyFlyer" and bst :: "'n BusyFlyerDevice"
  shows "busy_value (final (MyFlyer_collect st)) = busy_value st"
    and "busy_value (final (BusyFlyerDevice_collect bst)) = busy_value bst"
proof -
  have "busy_value (final (for_yield MyFlyer_collect_body ns s)) = busy_value s"
    for ns and s :: "'n MyFlyer"
    by (rule for_yield_preserves)
      (auto dest: MyFlyer_collect_body_Inl MyFlyer_collect_body_Inr)
  then show "busy_value (final (MyFlyer_collect st)) = busy_value st"
    by (simp add: MyFlyer_collect_def)
  have "busy_value (final (for_yield BusyFlyerDevice_collect_body ns s)) = busy_value s"
    for ns and s :: "'n BusyFlyerDevice"
    by (rule for_yield_preserves)
      (auto dest: BusyFlyerDevice_collect_body_Inl BusyFlyerDevice_collect_body_Inr)
  then show "busy_value (final (BusyFlyerDevice_collect bst)) = busy_value bst"
    by (simp add: BusyFlyerDevice_collect_def)
qed

lemma finished_busy_value: "busy_value (finished r ok st) = busy_value st"
  by (simp add: finished_def split: option.splits)

lemma run_callbacks_preserves:
  assumes "\<And>s s'. cb s = Inr s' \<Longrightarrow> f s' = f s"
  shows "f (run_callbacks cb cs st) = f st"
proof (induction cs arbitrary: st)
  case Nil
  then show ?case by simp
next
  case (Cons c cs)
  show ?case
  proof (cases "cb st")
    case (Inl e)
    then show ?thesis using Cons.IH [of st] by simp
  next
    case (Inr s')
    then show ?thesis using Cons.IH [of s'] assms [OF Inr] by simp
  qed
qed

lemma monitor_busy_value:
  "busy_value (MyFlyer_monitor v st) = v"
  "busy_value (BusyFlyerDevice_monitor v bst) = v"
proof -
  have "busy_value (run_callbacks MyFlyer_cb cs s) = busy_value s" for cs and s :: "'a MyFlyer"
    by (rule run_callbacks_preserves)
      (auto simp add: MyFlyer_cb_def finished_busy_value split: if_splits option.splits)
  then show "busy_value (MyFlyer_monitor v st) = v"
    by (simp add: MyFlyer_monitor_def)
  have "busy_value (run_callbacks BusyFlyerDevice_cb cs s) = busy_value s"
    for cs and s :: "'b BusyFlyerDevice"
    by (rule run_callbacks_preserves)
      (auto simp add: BusyFlyerDevice_cb_def finished_busy_value split: if_splits option.splits)
  then show "busy_value (BusyFlyerDevice_monitor v bst) = v"
    by (simp add: BusyFlyerDevice_monitor_def)
qed

lemma MyFlyer_kickoff_after:
  "MyFlyer_kickoff s = Inr (Suc (next_status s), after (MyFlyer_kickoff s))"
  "subscribers (after (MyFlyer_kickoff s)) = subscribers s @ [next_cid s]"
  "completion_status (after (MyFlyer_kickoff s)) = Some (next_status s)"
  "statuses (after (MyFlyer_kickoff s)) (next_status s) =
     Some \<lparr>st_done = False, st_success = False\<rparr>"
  "busy_value (after (MyFlyer_kickoff s)) = busy_value s"
  by (simp_all add: kick_defs after_def)

lemma BusyFlyerDevice_kickoff_after:
  "BusyFlyerDevice_kickoff s = Inr (Suc (next_status s), after (BusyFlyerDevice_kickoff s))"
  "subscribers (after (BusyFlyerDevice_kickoff s)) = subscribers s @ [next_cid s]"
  "complete_status (after (BusyFlyerDevice_kickoff s)) = Some (next_status s)"
  "statuses (after (BusyFlyerDevice_kickoff s)) (next_status s) =
     Some \<lparr>st_done = False, st_success = False\<rparr>"
  "busy_value (after (BusyFlyerDevice_kickoff s)) = busy_value s"
  by (simp_all add: kick_defs after_def)

lemma MyFlyer_deliver_done:
  assumes "cid \<in> set (subscribers s)" and "busy_value s = BusyStatus_done"
    and "completion_status s = Some r"
    and "statuses s r = Some \<lparr>st_done = False, st_success = False\<rparr>"
  shows "\<exists>s'. MyFlyer_deliver cid s = Inr s' \<and>
           statuses s' r = Some \<lparr>st_done = True, st_success = True\<rparr>"
  using assms
  by (simp add: MyFlyer_deliver_def MyFlyer_cb_def finished_def cb_on_record_states)

lemma BusyFlyerDevice_deliver_done:
  assumes "cid \<in> set (subscribers s)" and "busy_value s = BusyStatus_done"
    and "complete_status s = Some r"
    and "statuses s r = Some \<lparr>st_done = False, st_success = False\<rparr>"
  shows "\<exists>s'. BusyFlyerDevice_deliver cid s = Inr s' \<and>
           statuses s' r = Some \<lparr>st_done = True, st_success = True\<rparr>"
  using assms
  by (simp add: BusyFlyerDevice_deliver_def BusyFlyerDevice_cb_def finished_def
      cb_on_record_states)

section \<open>kickoff\<close>

text \<open>
  C10. Every call of \<open>kickoff\<close>, of either flyer and in whatever state the device and
  the busy signal are, returns normally, and the status it returns is already finished
  with success. That status is a new object, different from the completion status of
  the cycle, so nothing about the arming write can show through it.
\<close>

theorem kickoff_status_finished:
  "(\<exists>k st'. MyFlyer_kickoff st = Inr (k, st') \<and>
      statuses st' k = Some \<lparr>st_done = True, st_success = True\<rparr> \<and>
      completion_status st' \<noteq> Some k) \<and>
   (\<exists>k st'. BusyFlyerDevice_kickoff bst = Inr (k, st') \<and>
      statuses st' k = Some \<lparr>st_done = True, st_success = True\<rparr> \<and>
      complete_status st' \<noteq> Some k)"
  by (simp add: kick_defs)

text \<open>
  C2, as stated, fails: \<open>kickoff\<close> makes no check. After a first \<open>kickoff\<close> of \<open>ifly\<close> the
  device holds the unfinished status 0; a second \<open>kickoff\<close> returns normally and the
  device then holds status 2. The same happens with \<open>bflyer\<close>.
\<close>

theorem kickoff_while_armed_counterexample:
  "completion_status (after (MyFlyer_kickoff ifly)) = Some 0 \<and>
   statuses (after (MyFlyer_kickoff ifly)) 0 = Some \<lparr>st_done = False, st_success = False\<rparr> \<and>
   \<not> isl (MyFlyer_kickoff (after (MyFlyer_kickoff ifly))) \<and>
   completion_status (after (MyFlyer_kickoff (after (MyFlyer_kickoff ifly)))) = Some 2 \<and>
   complete_status (after (BusyFlyerDevice_kickoff bflyer)) = Some 0 \<and>
   \<not> isl (BusyFlyerDevice_kickoff (after (BusyFlyerDevice_kickoff bflyer))) \<and>
   complete_status (after (BusyFlyerDevice_kickoff (after (BusyFlyerDevice_kickoff bflyer)))) =
     Some 2"
  by (simp add: kick_defs init_defs)

text \<open>
  C2, amended. On a device that already holds a completion status \<open>r\<close> (a cycle in
  flight), \<open>kickoff\<close> does not fail: it creates a new status and makes it the device's
  completion status in place of \<open>r\<close>, and it registers one more callback. The status
  object \<open>r\<close> itself is left as it was.
\<close>

theorem kickoff_replaces_status:
  assumes "completion_status st = Some r" and "r < next_status st"
    and "complete_status bst = Some q" and "q < next_status bst"
  shows "(\<exists>k st'. MyFlyer_kickoff st = Inr (k, st') \<and>
            completion_status st' = Some (next_status st) \<and>
            completion_status st' \<noteq> completion_status st \<and>
            statuses st' r = statuses st r \<and>
            subscribers st' = subscribers st @ [next_cid st]) \<and>
         (\<exists>k st'. BusyFlyerDevice_kickoff bst = Inr (k, st') \<and>
            complete_status st' = Some (next_status bst) \<and>
            complete_status st' \<noteq> complete_status bst \<and>
            statuses st' q = statuses bst q \<and>
            subscribers st' = subscribers bst @ [next_cid bst])"
  using assms by (auto simp add: kick_defs)

theorem kickoff_replaces_status_witness:
  "completion_status (after (MyFlyer_kickoff ifly)) = Some 0 \<and>
   0 < next_status (after (MyFlyer_kickoff ifly)) \<and>
   complete_status (after (BusyFlyerDevice_kickoff bflyer)) = Some 0 \<and>
   0 < next_status (after (BusyFlyerDevice_kickoff bflyer)) \<and>
   (\<exists>k st'. MyFlyer_kickoff (after (MyFlyer_kickoff ifly)) = Inr (k, st') \<and>
      completion_status st' = Some (next_status (after (MyFlyer_kickoff ifly))) \<and>
      completion_status st' \<noteq> completion_status (after (MyFlyer_kickoff ifly)) \<and>
      statuses st' 0 = statuses (after (MyFlyer_kickoff ifly)) 0 \<and>
      subscribers st' =
        subscribers (after (MyFlyer_kickoff ifly)) @ [next_cid (after (MyFlyer_kickoff ifly))])"
proof -
  have a: "completion_status (after (MyFlyer_kickoff ifly)) = Some 0"
    by (simp add: kick_defs init_defs)
  have b: "0 < next_status (after (MyFlyer_kickoff ifly))"
    by (simp add: kick_defs init_defs)
  have c: "complete_status (after (BusyFlyerDevice_kickoff bflyer)) = Some 0"
    by (simp add: kick_defs init_defs)
  have d: "0 < next_status (after (BusyFlyerDevice_kickoff bflyer))"
    by (simp add: kick_defs init_defs)
  from kickoff_replaces_status [OF a b c d] a b c d show ?thesis by blast
qed

text \<open>
  C4, as stated, fails for both flyers. \<open>MyFlyer.kickoff\<close> subscribes before it reads
  the clock; \<open>BusyFlyerDevice.kickoff\<close> subscribes after it has written the busy
  signal. (The first reading of the clock in the trace of \<open>bflyer\<close> is the one of
  \<open>__init__\<close>.)
\<close>

theorem kickoff_order_counterexample:
  "trace (after (MyFlyer_kickoff ifly)) =
     [New_status 0, Subscribe 0, Time_time, Put ''Busy'', New_status 1] \<and>
   trace (after (MyFlyer_kickoff ifly)) \<noteq>
     [New_status 0, Time_time, Subscribe 0, Put ''Busy'', New_status 1] \<and>
   trace (after (BusyFlyerDevice_kickoff bflyer)) =
     [Time_time, New_status 0, Time_time, Put ''Busy'', Subscribe 0, New_status 1] \<and>
   trace (after (BusyFlyerDevice_kickoff bflyer)) \<noteq>
     [Time_time, New_status 0, Time_time, Subscribe 0, Put ''Busy'', New_status 1]"
  by (simp add: kick_defs init_defs BusyStatus_busy_def)

text \<open>
  C4, amended. Every call of \<open>kickoff\<close> creates the new completion status first and
  then subscribes the callback, reads the clock and writes the start value once each.
  In \<open>MyFlyer\<close> the order is: create, subscribe, read the clock, write (so the
  subscription precedes the write). In \<open>BusyFlyerDevice\<close> the order is: create, read
  the clock, write, subscribe. The status that \<open>kickoff\<close> returns is created last.
\<close>

theorem kickoff_trace:
  "(\<exists>k st'. MyFlyer_kickoff st = Inr (k, st') \<and>
      trace st' = trace st @ [New_status (next_status st), Subscribe (next_cid st), Time_time,
                              Put BusyStatus_busy, New_status (Suc (next_status st))]) \<and>
   (\<exists>k st'. BusyFlyerDevice_kickoff bst = Inr (k, st') \<and>
      trace st' = trace bst @ [New_status (next_status bst), Time_time, Put BusyStatus_busy,
                               Subscribe (next_cid bst), New_status (Suc (next_status bst))])"
  by (simp add: kick_defs)

section \<open>The callback\<close>

text \<open>
  C3. The busy record has two states, \<open>Busy\<close> and \<open>Done\<close>, and the signal delivers
  their names. When the callback runs with the device holding an unfinished completion
  status and the signal reading one of the two, it finishes that status with success
  exactly when the value read is the done value; on \<open>Busy\<close> it changes nothing. (The
  test in \<open>cb\<close> is Python's \<open>in\<close> on the string \<open>Done\<close>; on the two states it agrees with
  equality.)
\<close>

theorem cb_finishes_iff_done:
  assumes "busy_value st = BusyStatus_busy \<or> busy_value st = BusyStatus_done"
    and "completion_status st = Some r" and "statuses st r = Some s" and "\<not> st_done s"
    and "busy_value bst = BusyStatus_busy \<or> busy_value bst = BusyStatus_done"
    and "complete_status bst = Some q" and "statuses bst q = Some u" and "\<not> st_done u"
  shows
   "(\<exists>st'. MyFlyer_cb st = Inr st' \<and>
       (statuses st' r = Some \<lparr>st_done = True, st_success = True\<rparr> \<longleftrightarrow>
          busy_value st = BusyStatus_done) \<and>
       (busy_value st \<noteq> BusyStatus_done \<longrightarrow> st' = st)) \<and>
    (\<exists>st'. BusyFlyerDevice_cb bst = Inr st' \<and>
       (statuses st' q = Some \<lparr>st_done = True, st_success = True\<rparr> \<longleftrightarrow>
          busy_value bst = BusyStatus_done) \<and>
       (busy_value bst \<noteq> BusyStatus_done \<longrightarrow> st' = bst))"
proof -
  have ne: "BusyStatus_busy \<noteq> BusyStatus_done"
    by (simp add: BusyStatus_busy_def BusyStatus_done_def)
  have s: "s \<noteq> \<lparr>st_done = True, st_success = True\<rparr>" "u \<noteq> \<lparr>st_done = True, st_success = True\<rparr>"
    using assms(4,8) by auto
  have m: "\<exists>st'. MyFlyer_cb st = Inr st' \<and>
       (statuses st' r = Some \<lparr>st_done = True, st_success = True\<rparr> \<longleftrightarrow>
          busy_value st = BusyStatus_done) \<and>
       (busy_value st \<noteq> BusyStatus_done \<longrightarrow> st' = st)"
    using assms(1)
  proof
    assume "busy_value st = BusyStatus_busy"
    then show ?thesis
      using assms(3) s ne by (simp add: MyFlyer_cb_def cb_on_record_states)
  next
    assume "busy_value st = BusyStatus_done"
    then show ?thesis
      using assms(2,3,4) by (simp add: MyFlyer_cb_def cb_on_record_states finished_def)
  qed
  have b: "\<exists>st'. BusyFlyerDevice_cb bst = Inr st' \<and>
       (statuses st' q = Some \<lparr>st_done = True, st_success = True\<rparr> \<longleftrightarrow>
          busy_value bst = BusyStatus_done) \<and>
       (busy_value bst \<noteq> BusyStatus_done \<longrightarrow> st' = bst)"
    using assms(5)
  proof
    assume "busy_value bst = BusyStatus_busy"
    then show ?thesis
      using assms(7) s ne by (simp add: BusyFlyerDevice_cb_def cb_on_record_states)
  next
    assume "busy_value bst = BusyStatus_done"
    then show ?thesis
      using assms(6,7,8) by (simp add: BusyFlyerDevice_cb_def cb_on_record_states finished_def)
  qed
  from m b show ?thesis by (rule conjI)
qed

theorem cb_finishes_iff_done_witness:
  "busy_value ifly_armed = BusyStatus_busy \<and>
   completion_status ifly_armed = Some 0 \<and>
   statuses ifly_armed 0 = Some \<lparr>st_done = False, st_success = False\<rparr> \<and>
   busy_value bflyer_posted = BusyStatus_done \<and>
   complete_status bflyer_posted = Some 0 \<and>
   statuses bflyer_posted 0 = Some \<lparr>st_done = False, st_success = False\<rparr> \<and>
   MyFlyer_cb ifly_armed = Inr ifly_armed \<and>
   statuses (projr (BusyFlyerDevice_cb bflyer_posted)) 0 =
     Some \<lparr>st_done = True, st_success = True\<rparr>"
proof -
  have a: "busy_value ifly_armed = BusyStatus_busy" "completion_status ifly_armed = Some 0"
    "statuses ifly_armed 0 = Some \<lparr>st_done = False, st_success = False\<rparr>"
    by (simp_all add: ifly_armed_def kick_defs init_defs BusyStatus_busy_def)
  have a4: "\<not> st_done \<lparr>st_done = False, st_success = False\<rparr>" by simp
  have b: "busy_value bflyer_posted = BusyStatus_done" "complete_status bflyer_posted = Some 0"
    "statuses bflyer_posted 0 = Some \<lparr>st_done = False, st_success = False\<rparr>"
    by (simp_all add: bflyer_posted_def kick_defs init_defs)
  note t = cb_finishes_iff_done [OF disjI1 [OF a(1)] a(2) a(3) a4 disjI2 [OF b(1)] b(2) b(3) a4]
  have n: "busy_value ifly_armed \<noteq> BusyStatus_done"
    by (simp add: a(1) BusyStatus_busy_def BusyStatus_done_def)
  from t n have ra: "MyFlyer_cb ifly_armed = Inr ifly_armed" by auto
  from t b(1) have rb: "statuses (projr (BusyFlyerDevice_cb bflyer_posted)) 0 =
      Some \<lparr>st_done = True, st_success = True\<rparr>" by auto
  show ?thesis
    by (intro conjI) (rule a b ra rb)+
qed

section \<open>complete\<close>

text \<open>
  C7. With no cycle in flight, \<open>MyFlyer.complete\<close> raises \<open>RuntimeError\<close>, as the claim
  says, but \<open>BusyFlyerDevice.complete\<close> has no such check and returns \<open>None\<close>.
\<close>

theorem complete_idle:
  "MyFlyer_complete (st\<lparr>completion_status := None\<rparr>) =
     Inl (RuntimeError ''No collection in progress'') \<and>
   BusyFlyerDevice_complete (bst\<lparr>complete_status := None\<rparr>) = Inr None"
  by (simp add: MyFlyer_complete_def BusyFlyerDevice_complete_def)

section \<open>collect\<close>

text \<open>
  C1, as stated, fails: \<open>collect\<close> takes its range from the time waveform alone and
  reads the other waveforms at every index of that range. With 5, 5 and 3 samples in
  the time, x and y waveforms, either flyer yields 3 events and then reads the y
  waveform at index 3, past its end: the generator ends with \<open>IndexError\<close>.
\<close>

theorem collect_short_buffer_counterexample:
  "map (\<lambda>w. length (wave w)) [tArr (ifly_with [101, 102, 103, 104, 105] [1, 2, 3, 4, 5] [6, 7, 8]),
        xArr (ifly_with [101, 102, 103, 104, 105] [1, 2, 3, 4, 5] [6, 7, 8]),
        yArr (ifly_with [101, 102, 103, 104, 105] [1, 2, 3, 4, 5] [6, 7, 8])] = [5, 5, 3] \<and>
   length (yielded (MyFlyer_collect (ifly_with [101, 102, 103, 104, 105] [1, 2, 3, 4, 5] [6, 7, 8]))) = 3 \<and>
   raised (MyFlyer_collect (ifly_with [101, 102, 103, 104, 105] [1, 2, 3, 4, 5] [6, 7, 8])) =
     Some IndexError \<and>
   getitem (wave (yArr (ifly_with [101, 102, 103, 104, 105] [1, 2, 3, 4, 5] [6, 7, 8]))) 3 =
     Inl IndexError \<and>
   length (yielded (BusyFlyerDevice_collect
      (bflyer_with [101, 102, 103, 104, 105] [1, 2, 3, 4, 5] [6, 7, 8]))) = 3 \<and>
   raised (BusyFlyerDevice_collect
      (bflyer_with [101, 102, 103, 104, 105] [1, 2, 3, 4, 5] [6, 7, 8])) = Some IndexError"
  by (simp add: MyFlyer_collect_length MyFlyer_collect_raised BusyFlyerDevice_collect_length
      BusyFlyerDevice_collect_raised init_defs getitem_def)

text \<open>
  C1, amended. \<open>collect\<close> yields one event for each index from 0 up to the smallest
  sample count of the three waveforms (for \<open>BusyFlyerDevice\<close>, also no more than the
  \<open>number_read\<close> of the time waveform); the event at index \<open>k\<close> has all three channel
  names and holds the \<open>k\<close>-th x and y samples. The generator ends normally exactly when
  no waveform is shorter than the range taken from the time waveform; otherwise, after
  those events, it ends with \<open>IndexError\<close>. The names of the three waveforms of a
  \<open>BusyFlyerDevice\<close> are taken to be different.
\<close>

theorem collect_one_event_per_index:
  fixes st :: "('n::minus) MyFlyer" and bst :: "'n BusyFlyerDevice"
  assumes "distinct [name (wtime bst), name (axis bst), name (signal bst)]"
  shows
   "length (yielded (MyFlyer_collect st)) =
      min (length (wave (tArr st))) (min (length (wave (xArr st))) (length (wave (yArr st)))) \<and>
    raised (MyFlyer_collect st) =
      (if length (wave (tArr st)) \<le> length (wave (xArr st)) \<and>
          length (wave (tArr st)) \<le> length (wave (yArr st))
       then None else Some IndexError) \<and>
    (\<forall>k < length (yielded (MyFlyer_collect st)).
       dom (data (yielded (MyFlyer_collect st) ! k)) = {''ifly_tArr'', ''ifly_xArr'', ''ifly_yArr''} \<and>
       data (yielded (MyFlyer_collect st) ! k) ''ifly_xArr'' = Some (wave (xArr st) ! k) \<and>
       data (yielded (MyFlyer_collect st) ! k) ''ifly_yArr'' = Some (wave (yArr st) ! k)) \<and>
    length (yielded (BusyFlyerDevice_collect bst)) =
      min (number_read (wtime bst)) (min (length (wave (wtime bst)))
        (min (length (wave (axis bst))) (length (wave (signal bst))))) \<and>
    raised (BusyFlyerDevice_collect bst) =
      (if number_read (wtime bst) \<le> length (wave (wtime bst)) \<and>
          number_read (wtime bst) \<le> length (wave (axis bst)) \<and>
          number_read (wtime bst) \<le> length (wave (signal bst))
       then None else Some IndexError) \<and>
    (\<forall>k < length (yielded (BusyFlyerDevice_collect bst)).
       dom (data (yielded (BusyFlyerDevice_collect bst) ! k)) =
         {name (wtime bst), name (axis bst), name (signal bst)} \<and>
       data (yielded (BusyFlyerDevice_collect bst) ! k) (name (axis bst)) =
         Some (wave (axis bst) ! k) \<and>
       data (yielded (BusyFlyerDevice_collect bst) ! k) (name (signal bst)) =
         Some (wave (signal bst) ! k))"
proof -
  have pm: "\<forall>k < length (yielded (MyFlyer_collect st)).
       dom (data (yielded (MyFlyer_collect st) ! k)) = {''ifly_tArr'', ''ifly_xArr'', ''ifly_yArr''} \<and>
       data (yielded (MyFlyer_collect st) ! k) ''ifly_xArr'' = Some (wave (xArr st) ! k) \<and>
       data (yielded (MyFlyer_collect st) ! k) ''ifly_yArr'' = Some (wave (yArr st) ! k)"
    using MyFlyer_collect_nth [of _ st] by blast
  have pb: "\<forall>k < length (yielded (BusyFlyerDevice_collect bst)).
       dom (data (yielded (BusyFlyerDevice_collect bst) ! k)) =
         {name (wtime bst), name (axis bst), name (signal bst)} \<and>
       data (yielded (BusyFlyerDevice_collect bst) ! k) (name (axis bst)) =
         Some (wave (axis bst) ! k) \<and>
       data (yielded (BusyFlyerDevice_collect bst) ! k) (name (signal bst)) =
         Some (wave (signal bst) ! k)"
  proof (intro allI impI)
    fix k
    assume k: "k < length (yielded (BusyFlyerDevice_collect bst))"
    from BusyFlyerDevice_collect_nth [OF k assms] assms
    have "data (yielded (BusyFlyerDevice_collect bst) ! k) (name (axis bst)) =
         Some (wave (axis bst) ! k)"
      "data (yielded (BusyFlyerDevice_collect bst) ! k) (name (signal bst)) =
         Some (wave (signal bst) ! k)"
      by simp_all
    with BusyFlyerDevice_collect_dom [OF k]
    show "dom (data (yielded (BusyFlyerDevice_collect bst) ! k)) =
         {name (wtime bst), name (axis bst), name (signal bst)} \<and>
       data (yielded (BusyFlyerDevice_collect bst) ! k) (name (axis bst)) =
         Some (wave (axis bst) ! k) \<and>
       data (yielded (BusyFlyerDevice_collect bst) ! k) (name (signal bst)) =
         Some (wave (signal bst) ! k)"
      by (simp only: simp_thms)
  qed
  note lm = MyFlyer_collect_length [of st]
  note rm = MyFlyer_collect_raised [of st]
  note lb = BusyFlyerDevice_collect_length [of bst]
  note rb = BusyFlyerDevice_collect_raised [of bst]
  show ?thesis
    by (intro conjI) (rule lm rm pm lb rb pb)+
qed

theorem collect_one_event_per_index_witness:
  "distinct [name (wtime (bflyer_with [101, 102, 103] [1, 2, 3, 4, 5] [6, 7, 8, 9, 10])),
             name (axis (bflyer_with [101, 102, 103] [1, 2, 3, 4, 5] [6, 7, 8, 9, 10])),
             name (signal (bflyer_with [101, 102, 103] [1, 2, 3, 4, 5] [6, 7, 8, 9, 10]))] \<and>
   length (yielded (MyFlyer_collect (ifly_with [101, 102, 103] [1, 2, 3, 4, 5] [6, 7, 8, 9, 10]))) = 3 \<and>
   raised (MyFlyer_collect (ifly_with [101, 102, 103] [1, 2, 3, 4, 5] [6, 7, 8, 9, 10])) = None \<and>
   dom (data (yielded (MyFlyer_collect (ifly_with [101, 102, 103] [1, 2, 3, 4, 5] [6, 7, 8, 9, 10])) ! 2)) =
     {''ifly_tArr'', ''ifly_xArr'', ''ifly_yArr''} \<and>
   data (yielded (MyFlyer_collect (ifly_with [101, 102, 103] [1, 2, 3, 4, 5] [6, 7, 8, 9, 10])) ! 2)
     ''ifly_xArr'' = Some 3 \<and>
   length (yielded (BusyFlyerDevice_collect
     (bflyer_with [101, 102, 103] [1, 2, 3, 4, 5] [6, 7, 8, 9, 10]))) = 3 \<and>
   raised (BusyFlyerDevice_collect
     (bflyer_with [101, 102, 103] [1, 2, 3, 4, 5] [6, 7, 8, 9, 10])) = None \<and>
   dom (data (yielded (BusyFlyerDevice_collect
     (bflyer_with [101, 102, 103] [1, 2, 3, 4, 5] [6, 7, 8, 9, 10])) ! 2)) =
     {''bflyer_time'', ''bflyer_axis'', ''bflyer_signal''} \<and>
   data (yielded (BusyFlyerDevice_collect
     (bflyer_with [101, 102, 103] [1, 2, 3, 4, 5] [6, 7, 8, 9, 10])) ! 2) ''bflyer_signal'' = Some 8"
proof -
  let ?A = "ifly_with [101, 102, 103] [1, 2, 3, 4, 5] [6, 7, 8, 9, 10]"
  let ?B = "bflyer_with [101, 102, 103] [1, 2, 3, 4, 5] [6, 7, 8, 9, 10]"
  have d: "distinct [name (wtime ?B), name (axis ?B), name (signal ?B)]"
    by (simp add: init_defs)
  note t = collect_one_event_per_index [OF d, of ?A]
  have la: "length (yielded (MyFlyer_collect ?A)) = 3"
    using t [THEN conjunct1] by (simp add: init_defs)
  have ra: "raised (MyFlyer_collect ?A) = None"
    using t [THEN conjunct2, THEN conjunct1] by (simp add: init_defs)
  have lb: "length (yielded (BusyFlyerDevice_collect ?B)) = 3"
    using t [THEN conjunct2, THEN conjunct2, THEN conjunct2, THEN conjunct1]
    by (simp add: init_defs)
  have rb: "raised (BusyFlyerDevice_collect ?B) = None"
    using t [THEN conjunct2, THEN conjunct2, THEN conjunct2, THEN conjunct2, THEN conjunct1]
    by (simp add: init_defs)
  have ka: "2 < length (yielded (MyFlyer_collect ?A))" using la by simp
  have kb: "2 < length (yielded (BusyFlyerDevice_collect ?B))" using lb by simp
  note pa = t [THEN conjunct2, THEN conjunct2, THEN conjunct1, THEN spec, THEN mp, OF ka]
  note pb = t [THEN conjunct2, THEN conjunct2, THEN conjunct2, THEN conjunct2, THEN conjunct2,
      THEN spec, THEN mp, OF kb]
  have na: "wave (xArr ?A) ! 2 = 3" by (simp add: init_defs)
  have nb: "wave (signal ?B) ! 2 = 8" "name (wtime ?B) = ''bflyer_time''"
    "name (axis ?B) = ''bflyer_axis''" "name (signal ?B) = ''bflyer_signal''"
    by (simp_all add: init_defs)
  have pa': "dom (data (yielded (MyFlyer_collect ?A) ! 2)) = {''ifly_tArr'', ''ifly_xArr'', ''ifly_yArr''}"
    "data (yielded (MyFlyer_collect ?A) ! 2) ''ifly_xArr'' = Some 3"
    using pa na by (simp_all only:)
  have pb': "dom (data (yielded (BusyFlyerDevice_collect ?B) ! 2)) =
      {''bflyer_time'', ''bflyer_axis'', ''bflyer_signal''}"
    "data (yielded (BusyFlyerDevice_collect ?B) ! 2) ''bflyer_signal'' = Some 8"
    using pb nb by (simp_all only:)
  show ?thesis
    by (intro conjI) (rule d la ra pa' lb rb pb')+
qed

text \<open>
  C6, as stated, fails: \<open>collect\<close> makes no check of the state. On \<open>ifly\<close> as
  constructed (no cycle in flight) it yields its 3 events and ends normally; so it does
  after \<open>kickoff\<close> with the completion status still unfinished; and a second
  \<open>collect\<close> right after the first yields 3 events again.
\<close>

theorem collect_state_check_counterexample:
  "completion_status ifly = None \<and>
   raised (MyFlyer_collect ifly) = None \<and>
   length (yielded (MyFlyer_collect ifly)) = 3 \<and>
   completion_status (after (MyFlyer_kickoff ifly)) = Some 0 \<and>
   statuses (after (MyFlyer_kickoff ifly)) 0 = Some \<lparr>st_done = False, st_success = False\<rparr> \<and>
   raised (MyFlyer_collect (after (MyFlyer_kickoff ifly))) = None \<and>
   length (yielded (MyFlyer_collect (after (MyFlyer_kickoff ifly)))) = 3 \<and>
   raised (MyFlyer_collect (final (MyFlyer_collect (after (MyFlyer_kickoff ifly))))) = None \<and>
   length (yielded (MyFlyer_collect (final (MyFlyer_collect (after (MyFlyer_kickoff ifly)))))) = 3"
proof -
  have a: "completion_status ifly = None" by (simp add: init_defs)
  have w0: "wave (tArr ifly) = [101, 102, 103]" "wave (xArr ifly) = [7, 8, 9]"
    "wave (yArr ifly) = [4, 5, 6]"
    by (simp_all add: init_defs)
  have k: "completion_status (after (MyFlyer_kickoff ifly)) = Some 0"
    "statuses (after (MyFlyer_kickoff ifly)) 0 = Some \<lparr>st_done = False, st_success = False\<rparr>"
    by (simp_all add: kick_defs init_defs)
  have kw: "tArr (after (MyFlyer_kickoff ifly)) = tArr ifly"
    "xArr (after (MyFlyer_kickoff ifly)) = xArr ifly"
    "yArr (after (MyFlyer_kickoff ifly)) = yArr ifly"
    by (simp_all add: kick_defs after_def)
  note f = MyFlyer_collect_tArr [of "after (MyFlyer_kickoff ifly)"]
    MyFlyer_collect_xArr [of "after (MyFlyer_kickoff ifly)"]
    MyFlyer_collect_yArr [of "after (MyFlyer_kickoff ifly)"]
  have r0: "raised (MyFlyer_collect ifly) = None" "length (yielded (MyFlyer_collect ifly)) = 3"
    by (simp_all add: MyFlyer_collect_raised MyFlyer_collect_length w0)
  have r1: "raised (MyFlyer_collect (after (MyFlyer_kickoff ifly))) = None"
    "length (yielded (MyFlyer_collect (after (MyFlyer_kickoff ifly)))) = 3"
    by (simp_all add: MyFlyer_collect_raised MyFlyer_collect_length kw w0)
  have r2: "raised (MyFlyer_collect (final (MyFlyer_collect (after (MyFlyer_kickoff ifly))))) = None"
    "length (yielded (MyFlyer_collect (final (MyFlyer_collect (after (MyFlyer_kickoff ifly)))))) = 3"
    by (simp_all add: MyFlyer_collect_raised MyFlyer_collect_length f kw w0)
  show ?thesis
    by (intro conjI) (rule a r0 k r1 r2)+
qed

text \<open>
  C6, amended. \<open>collect\<close> never fails because of the state of the cycle: whether it
  ends normally depends on the lengths of the waveforms only. It always resets the
  completion status to \<open>None\<close>, and a second \<open>collect\<close> after the first yields as many
  events as the first and ends the same way.
\<close>

theorem collect_without_state_check:
  fixes st :: "('n::minus) MyFlyer" and bst :: "'n BusyFlyerDevice"
  shows
   "completion_status (final (MyFlyer_collect st)) = None \<and>
    raised (MyFlyer_collect st) =
      (if length (wave (tArr st)) \<le> length (wave (xArr st)) \<and>
          length (wave (tArr st)) \<le> length (wave (yArr st))
       then None else Some IndexError) \<and>
    length (yielded (MyFlyer_collect (final (MyFlyer_collect st)))) =
      length (yielded (MyFlyer_collect st)) \<and>
    raised (MyFlyer_collect (final (MyFlyer_collect st))) = raised (MyFlyer_collect st) \<and>
    complete_status (final (BusyFlyerDevice_collect bst)) = None \<and>
    raised (BusyFlyerDevice_collect bst) =
      (if number_read (wtime bst) \<le> length (wave (wtime bst)) \<and>
          number_read (wtime bst) \<le> length (wave (axis bst)) \<and>
          number_read (wtime bst) \<le> length (wave (signal bst))
       then None else Some IndexError) \<and>
    length (yielded (BusyFlyerDevice_collect (final (BusyFlyerDevice_collect bst)))) =
      length (yielded (BusyFlyerDevice_collect bst)) \<and>
    raised (BusyFlyerDevice_collect (final (BusyFlyerDevice_collect bst))) =
      raised (BusyFlyerDevice_collect bst)"
proof -
  note w = MyFlyer_collect_tArr [of st] MyFlyer_collect_xArr [of st] MyFlyer_collect_yArr [of st]
  note v = BusyFlyerDevice_collect_wtime [of bst] BusyFlyerDevice_collect_axis [of bst]
    BusyFlyerDevice_collect_signal [of bst]
  have l2: "length (yielded (MyFlyer_collect (final (MyFlyer_collect st)))) =
      length (yielded (MyFlyer_collect st))"
    by (simp only: MyFlyer_collect_length w)
  have r2: "raised (MyFlyer_collect (final (MyFlyer_collect st))) = raised (MyFlyer_collect st)"
    by (simp only: MyFlyer_collect_raised w)
  have l4: "length (yielded (BusyFlyerDevice_collect (final (BusyFlyerDevice_collect bst)))) =
      length (yielded (BusyFlyerDevice_collect bst))"
    by (simp only: BusyFlyerDevice_collect_length v)
  have r4: "raised (BusyFlyerDevice_collect (final (BusyFlyerDevice_collect bst))) =
      raised (BusyFlyerDevice_collect bst)"
    by (simp only: BusyFlyerDevice_collect_raised v)
  note s1 = MyFlyer_collect_status [of st]
  note r1 = MyFlyer_collect_raised [of st]
  note s3 = BusyFlyerDevice_collect_status [of bst]
  note r3 = BusyFlyerDevice_collect_raised [of bst]
  show ?thesis
    by (intro conjI) (rule s1 r1 l2 r2 s3 r3 l4 r4)+
qed

section \<open>End to end\<close>





section \<open>The taxi and fly plan\<close>

text \<open>
  C9. Whatever the remote side posts, the run of \<open>plan\<close> is sequential: no message of
  the plan takes data and the log holds no acquisition; and wherever the log holds a
  write to the fly flag, the log starts with the write of the taxi flag's start value
  and the taxi flag has been seen at its done sentinel in between. When both signals
  have at least two states the plan yields exactly \<open>set taxi\<close>, \<open>wait\<close>, \<open>set fly\<close>,
  \<open>wait\<close> and ends normally.
\<close>

theorem plan_taxi_before_fly:
  "list_all (\<lambda>m. \<not> takes_data m) (yielded (plan dev g1 g2)) \<and>
   Acquired \<notin> set (snd (RE dev (yielded (plan dev g1 g2)) evs)) \<and>
   (\<forall>j < length (snd (RE dev (yielded (plan dev g1 g2)) evs)).
      (\<exists>v. snd (RE dev (yielded (plan dev g1 g2)) evs) ! j = Wrote Fly v) \<longrightarrow>
      snd (RE dev (yielded (plan dev g1 g2)) evs) ! 0 = Wrote Taxi (enum_strs (taxi dev) ! 1) \<and>
      (\<exists>i. 0 < i \<and> i < j \<and>
         snd (RE dev (yielded (plan dev g1 g2)) evs) ! i = Saw Taxi (done_str (taxi dev)))) \<and>
   (1 < length (enum_strs (taxi dev)) \<and> 1 < length (enum_strs (fly dev)) \<longrightarrow>
      yielded (plan dev g1 g2) =
        [Msg_set Taxi (enum_strs (taxi dev) ! 1) g1, Msg_wait g1,
         Msg_set Fly (enum_strs (fly dev) ! 1) g2, Msg_wait g2] \<and>
      raised (plan dev g1 g2) = None)"
proof -
  have nd: "list_all (\<lambda>m. \<not> takes_data m) (yielded (plan dev g1 g2))"
    by (simp add: plan_cases takes_data_def)
  have full: "1 < length (enum_strs (taxi dev)) \<and> 1 < length (enum_strs (fly dev)) \<longrightarrow>
      yielded (plan dev g1 g2) =
        [Msg_set Taxi (enum_strs (taxi dev) ! 1) g1, Msg_wait g1,
         Msg_set Fly (enum_strs (fly dev) ! 1) g2, Msg_wait g2] \<and>
      raised (plan dev g1 g2) = None"
    by (simp add: plan_cases)
  note ord = log_order [OF plan_log_shape [of dev g1 g2 evs]]
  show ?thesis
    by (intro conjI) (rule nd ord [THEN conjunct1] ord [THEN conjunct2] full)+
qed

theorem plan_taxi_before_fly_witness:
  "1 < length (enum_strs (taxi taxi_fly)) \<and> 1 < length (enum_strs (fly taxi_fly)) \<and>
   yielded (plan taxi_fly 0 1) =
     [Msg_set Taxi ''Busy'' 0, Msg_wait 0, Msg_set Fly ''Busy'' 1, Msg_wait 1] \<and>
   raised (plan taxi_fly 0 1) = None \<and>
   3 < length (snd (RE taxi_fly (yielded (plan taxi_fly 0 1)) ioc_posts)) \<and>
   snd (RE taxi_fly (yielded (plan taxi_fly 0 1)) ioc_posts) ! 3 = Wrote Fly ''Busy'' \<and>
   snd (RE taxi_fly (yielded (plan taxi_fly 0 1)) ioc_posts) ! 0 = Wrote Taxi ''Busy'' \<and>
   (\<exists>i. 0 < i \<and> i < 3 \<and>
      snd (RE taxi_fly (yielded (plan taxi_fly 0 1)) ioc_posts) ! i = Saw Taxi ''Done'') \<and>
   Acquired \<notin> set (snd (RE taxi_fly (yielded (plan taxi_fly 0 1)) ioc_posts))"
proof -
  note t = plan_taxi_before_fly [of taxi_fly 0 1 ioc_posts]
  have h: "1 < length (enum_strs (taxi taxi_fly))" "1 < length (enum_strs (fly taxi_fly))"
    by (simp_all add: taxi_fly_def)
  have v: "enum_strs (taxi taxi_fly) ! 1 = ''Busy''" "enum_strs (fly taxi_fly) ! 1 = ''Busy''"
    "done_str (taxi taxi_fly) = ''Done''"
    by (simp_all add: taxi_fly_def)
  have L: "snd (RE taxi_fly (yielded (plan taxi_fly 0 1)) ioc_posts) =
      [Wrote Taxi ''Busy'', Saw Taxi ''Busy'', Saw Taxi ''Done'', Wrote Fly ''Busy'',
       Saw Fly ''Busy'', Saw Fly ''Done'']"
    by (simp add: plan_cases RE_plan_log taxi_fly_def ioc_posts_def signal_of_def)
  have j: "3 < length (snd (RE taxi_fly (yielded (plan taxi_fly 0 1)) ioc_posts))"
    "snd (RE taxi_fly (yielded (plan taxi_fly 0 1)) ioc_posts) ! 3 = Wrote Fly ''Busy''"
    unfolding L by simp_all
  from j have e: "\<exists>v. snd (RE taxi_fly (yielded (plan taxi_fly 0 1)) ioc_posts) ! 3 = Wrote Fly v"
    by blast
  note o = t [THEN conjunct2, THEN conjunct2, THEN conjunct1, THEN spec, THEN mp, OF j(1),
      THEN mp, OF e, unfolded v]
  note y = t [THEN conjunct2, THEN conjunct2, THEN conjunct2, THEN mp, OF conjI, OF h, unfolded v]
  note q = t [THEN conjunct2, THEN conjunct1]
  show ?thesis
    by (intro conjI) (rule h y [THEN conjunct1] y [THEN conjunct2] j o [THEN conjunct1]
        o [THEN conjunct2] q)+
qed

section \<open>Callbacks of earlier cycles\<close>

text \<open>
  C5, as stated, fails: nothing in the source unsubscribes, and \<open>cb\<close> compares nothing.
  In \<open>ifly\<close>, once the first cycle is over (\<open>complete\<close> returns the finished status 0)
  callback 0 is still subscribed, also after \<open>collect\<close>. After the second \<open>kickoff\<close> the
  device holds the unfinished status 2 and callbacks 0 and 1; the busy signal still
  reads \<open>Done\<close>. Callback 0, installed by the first cycle, then finishes status 2. The
  same happens in \<open>bflyer\<close>.
\<close>

theorem stale_callback_counterexample:
  "MyFlyer_complete ifly_flown = Inr 0 \<and>
   statuses ifly_flown 0 = Some \<lparr>st_done = True, st_success = True\<rparr> \<and>
   subscribers ifly_flown = [0] \<and>
   subscribers (final (MyFlyer_collect ifly_flown)) = [0] \<and>
   completion_status ifly_again = Some 2 \<and>
   statuses ifly_again 2 = Some \<lparr>st_done = False, st_success = False\<rparr> \<and>
   subscribers ifly_again = [0, 1] \<and>
   statuses (projr (MyFlyer_deliver 0 ifly_again)) 2 = Some \<lparr>st_done = True, st_success = True\<rparr> \<and>
   subscribers bflyer_again = [0, 1] \<and>
   complete_status bflyer_again = Some 2 \<and>
   statuses (projr (BusyFlyerDevice_deliver 0 bflyer_again)) 2 =
     Some \<lparr>st_done = True, st_success = True\<rparr>"
proof -
  have a: "MyFlyer_complete ifly_flown = Inr 0"
    "statuses ifly_flown 0 = Some \<lparr>st_done = True, st_success = True\<rparr>"
    "subscribers ifly_flown = [0]"
    by (simp_all add: ifly_flown_state MyFlyer_complete_def)
  have b: "subscribers (final (MyFlyer_collect ifly_flown)) = [0]"
    by (simp add: MyFlyer_collect_subscribers a)
  have c: "completion_status ifly_again = Some 2"
    "statuses ifly_again 2 = Some \<lparr>st_done = False, st_success = False\<rparr>"
    "subscribers ifly_again = [0, 1]"
    by (simp_all add: ifly_again_state)
  have d: "statuses (projr (MyFlyer_deliver 0 ifly_again)) 2 =
      Some \<lparr>st_done = True, st_success = True\<rparr>"
    by (simp add: ifly_again_state MyFlyer_deliver_def MyFlyer_cb_def BusyStatus_done_def
        finished_def)
  have e: "subscribers bflyer_again = [0, 1]" "complete_status bflyer_again = Some 2"
    by (simp_all add: bflyer_again_state)
  have f: "statuses (projr (BusyFlyerDevice_deliver 0 bflyer_again)) 2 =
      Some \<lparr>st_done = True, st_success = True\<rparr>"
    by (simp add: bflyer_again_state BusyFlyerDevice_deliver_def BusyFlyerDevice_cb_def
        BusyStatus_done_def finished_def)
  show ?thesis
    by (intro conjI) (rule a b c d e f)+
qed


text \<open>
  C5, amended. Let a watcher be subscribed while the device holds an unfinished
  completion status and the busy signal reads the done value. \<open>complete\<close> returns that
  status (it is a function of the state and changes nothing). Neither a value change,
  nor \<open>collect\<close>, nor \<open>kickoff\<close> removes a subscription: \<open>kickoff\<close> only adds one. So the
  watcher is still subscribed after the cycle has ended, \<open>collect\<close> has run and the
  next \<open>kickoff\<close> has created a new status. A watcher compares nothing: run in the
  present cycle it finishes the present status, and run in the next cycle, while the
  signal still reads the done value, it finishes the new status, with success.
\<close>

theorem callback_finishes_current_status:
  fixes st :: "('n::minus) MyFlyer" and bst :: "'n BusyFlyerDevice"
  assumes "cid \<in> set (subscribers st)" and "busy_value st = BusyStatus_done"
    and "completion_status st = Some r"
    and "statuses st r = Some \<lparr>st_done = False, st_success = False\<rparr>"
    and "bid \<in> set (subscribers bst)" and "busy_value bst = BusyStatus_done"
    and "complete_status bst = Some q"
    and "statuses bst q = Some \<lparr>st_done = False, st_success = False\<rparr>"
  shows
   "MyFlyer_complete st = Inr r \<and>
    subscribers (MyFlyer_monitor v st) = subscribers st \<and>
    subscribers (final (MyFlyer_collect st)) = subscribers st \<and>
    MyFlyer_kickoff st = Inr (Suc (next_status st), after (MyFlyer_kickoff st)) \<and>
    subscribers (after (MyFlyer_kickoff st)) = subscribers st @ [next_cid st] \<and>
    (\<exists>st'. MyFlyer_deliver cid st = Inr st' \<and>
       statuses st' r = Some \<lparr>st_done = True, st_success = True\<rparr>) \<and>
    cid \<in> set (subscribers (after (MyFlyer_kickoff (final (MyFlyer_collect
      (MyFlyer_monitor BusyStatus_done st)))))) \<and>
    (\<exists>n st'. completion_status (after (MyFlyer_kickoff (final (MyFlyer_collect
          (MyFlyer_monitor BusyStatus_done st))))) = Some n \<and>
       statuses (after (MyFlyer_kickoff (final (MyFlyer_collect
          (MyFlyer_monitor BusyStatus_done st))))) n =
         Some \<lparr>st_done = False, st_success = False\<rparr> \<and>
       MyFlyer_deliver cid (after (MyFlyer_kickoff (final (MyFlyer_collect
          (MyFlyer_monitor BusyStatus_done st))))) = Inr st' \<and>
       statuses st' n = Some \<lparr>st_done = True, st_success = True\<rparr>) \<and>
    BusyFlyerDevice_complete bst = Inr (Some q) \<and>
    subscribers (BusyFlyerDevice_monitor v bst) = subscribers bst \<and>
    subscribers (final (BusyFlyerDevice_collect bst)) = subscribers bst \<and>
    BusyFlyerDevice_kickoff bst =
      Inr (Suc (next_status bst), after (BusyFlyerDevice_kickoff bst)) \<and>
    subscribers (after (BusyFlyerDevice_kickoff bst)) = subscribers bst @ [next_cid bst] \<and>
    (\<exists>st'. BusyFlyerDevice_deliver bid bst = Inr st' \<and>
       statuses st' q = Some \<lparr>st_done = True, st_success = True\<rparr>) \<and>
    bid \<in> set (subscribers (after (BusyFlyerDevice_kickoff (final (BusyFlyerDevice_collect
      (BusyFlyerDevice_monitor BusyStatus_done bst)))))) \<and>
    (\<exists>n st'. complete_status (after (BusyFlyerDevice_kickoff (final (BusyFlyerDevice_collect
          (BusyFlyerDevice_monitor BusyStatus_done bst))))) = Some n \<and>
       statuses (after (BusyFlyerDevice_kickoff (final (BusyFlyerDevice_collect
          (BusyFlyerDevice_monitor BusyStatus_done bst))))) n =
         Some \<lparr>st_done = False, st_success = False\<rparr> \<and>
       BusyFlyerDevice_deliver bid (after (BusyFlyerDevice_kickoff (final (BusyFlyerDevice_collect
          (BusyFlyerDevice_monitor BusyStatus_done bst))))) = Inr st' \<and>
       statuses st' n = Some \<lparr>st_done = True, st_success = True\<rparr>)"
proof -
  let ?c = "final (MyFlyer_collect (MyFlyer_monitor BusyStatus_done st))"
  let ?N = "after (MyFlyer_kickoff ?c)"
  let ?d = "final (BusyFlyerDevice_collect (BusyFlyerDevice_monitor BusyStatus_done bst))"
  let ?M = "after (BusyFlyerDevice_kickoff ?d)"
  have m1: "MyFlyer_complete st = Inr r"
    using assms(3) by (simp add: MyFlyer_complete_def)
  note m2 = monitor_subscribers(1) [of v st]
  note m3 = MyFlyer_collect_subscribers [of st]
  note m4 = MyFlyer_kickoff_after(1) [of st]
  note m5 = MyFlyer_kickoff_after(2) [of st]
  note m6 = MyFlyer_deliver_done [OF assms(1-4)]
  have sc: "subscribers ?c = subscribers st"
    by (simp only: MyFlyer_collect_subscribers monitor_subscribers)
  have bc: "busy_value ?c = BusyStatus_done"
    by (simp only: collect_busy_value monitor_busy_value)
  have m7: "cid \<in> set (subscribers ?N)"
    using assms(1) by (simp add: MyFlyer_kickoff_after(2) sc)
  have bN: "busy_value ?N = BusyStatus_done"
    by (simp only: MyFlyer_kickoff_after(5) bc)
  from MyFlyer_deliver_done [OF m7 bN MyFlyer_kickoff_after(3) [of ?c]
      MyFlyer_kickoff_after(4) [of ?c]]
  obtain st' where d: "MyFlyer_deliver cid ?N = Inr st'"
    "statuses st' (next_status ?c) = Some \<lparr>st_done = True, st_success = True\<rparr>"
    by blast
  have m8: "\<exists>n st'. completion_status ?N = Some n \<and>
       statuses ?N n = Some \<lparr>st_done = False, st_success = False\<rparr> \<and>
       MyFlyer_deliver cid ?N = Inr st' \<and>
       statuses st' n = Some \<lparr>st_done = True, st_success = True\<rparr>"
    using MyFlyer_kickoff_after(3) [of ?c] MyFlyer_kickoff_after(4) [of ?c] d by blast
  have b1: "BusyFlyerDevice_complete bst = Inr (Some q)"
    using assms(7) by (simp add: BusyFlyerDevice_complete_def)
  note b2 = monitor_subscribers(2) [of v bst]
  note b3 = BusyFlyerDevice_collect_subscribers [of bst]
  note b4 = BusyFlyerDevice_kickoff_after(1) [of bst]
  note b5 = BusyFlyerDevice_kickoff_after(2) [of bst]
  note b6 = BusyFlyerDevice_deliver_done [OF assms(5-8)]
  have sd: "subscribers ?d = subscribers bst"
    by (simp only: BusyFlyerDevice_collect_subscribers monitor_subscribers)
  have bd: "busy_value ?d = BusyStatus_done"
    by (simp only: collect_busy_value monitor_busy_value)
  have b7: "bid \<in> set (subscribers ?M)"
    using assms(5) by (simp add: BusyFlyerDevice_kickoff_after(2) sd)
  have bM: "busy_value ?M = BusyStatus_done"
    by (simp only: BusyFlyerDevice_kickoff_after(5) bd)
  from BusyFlyerDevice_deliver_done [OF b7 bM BusyFlyerDevice_kickoff_after(3) [of ?d]
      BusyFlyerDevice_kickoff_after(4) [of ?d]]
  obtain bt' where e: "BusyFlyerDevice_deliver bid ?M = Inr bt'"
    "statuses bt' (next_status ?d) = Some \<lparr>st_done = True, st_success = True\<rparr>"
    by blast
  have b8: "\<exists>n st'. complete_status ?M = Some n \<and>
       statuses ?M n = Some \<lparr>st_done = False, st_success = False\<rparr> \<and>
       BusyFlyerDevice_deliver bid ?M = Inr st' \<and>
       statuses st' n = Some \<lparr>st_done = True, st_success = True\<rparr>"
    using BusyFlyerDevice_kickoff_after(3) [of ?d] BusyFlyerDevice_kickoff_after(4) [of ?d] e
    by blast
  show ?thesis
    by (intro conjI) (rule m1 m2 m3 m4 m5 m6 m7 m8 b1 b2 b3 b4 b5 b6 b7 b8)+
qed

theorem callback_finishes_current_status_witness:
  "0 \<in> set (subscribers ifly_again) \<and> busy_value ifly_again = BusyStatus_done \<and>
   completion_status ifly_again = Some 2 \<and>
   statuses ifly_again 2 = Some \<lparr>st_done = False, st_success = False\<rparr> \<and>
   0 \<in> set (subscribers bflyer_again) \<and> busy_value bflyer_again = BusyStatus_done \<and>
   complete_status bflyer_again = Some 2 \<and>
   statuses bflyer_again 2 = Some \<lparr>st_done = False, st_success = False\<rparr> \<and>
   MyFlyer_complete ifly_again = Inr 2 \<and>
   (\<exists>st'. MyFlyer_deliver 0 ifly_again = Inr st' \<and>
      statuses st' 2 = Some \<lparr>st_done = True, st_success = True\<rparr>) \<and>
   0 \<in> set (subscribers (after (MyFlyer_kickoff (final (MyFlyer_collect
      (MyFlyer_monitor BusyStatus_done ifly_again)))))) \<and>
   BusyFlyerDevice_complete bflyer_again = Inr (Some 2) \<and>
   (\<exists>st'. BusyFlyerDevice_deliver 0 bflyer_again = Inr st' \<and>
      statuses st' 2 = Some \<lparr>st_done = True, st_success = True\<rparr>) \<and>
   0 \<in> set (subscribers (after (BusyFlyerDevice_kickoff (final (BusyFlyerDevice_collect
      (BusyFlyerDevice_monitor BusyStatus_done bflyer_again))))))"
proof -
  have a: "0 \<in> set (subscribers ifly_again)" "busy_value ifly_again = BusyStatus_done"
    "completion_status ifly_again = Some 2"
    "statuses ifly_again 2 = Some \<lparr>st_done = False, st_success = False\<rparr>"
    by (simp_all add: ifly_again_state BusyStatus_done_def)
  have b: "0 \<in> set (subscribers bflyer_again)" "busy_value bflyer_again = BusyStatus_done"
    "complete_status bflyer_again = Some 2"
    "statuses bflyer_again 2 = Some \<lparr>st_done = False, st_success = False\<rparr>"
    by (simp_all add: bflyer_again_state BusyStatus_done_def)
  note t = callback_finishes_current_status [OF a b, of "''Done''"]
  from t have c1: "MyFlyer_complete ifly_again = Inr 2"
    by (elim conjE) assumption
  from t have c2: "\<exists>st'. MyFlyer_deliver 0 ifly_again = Inr st' \<and>
      statuses st' 2 = Some \<lparr>st_done = True, st_success = True\<rparr>"
    by (elim conjE) assumption
  from t have c3: "0 \<in> set (subscribers (after (MyFlyer_kickoff (final (MyFlyer_collect
      (MyFlyer_monitor BusyStatus_done ifly_again))))))"
    by (elim conjE) assumption
  from t have c4: "BusyFlyerDevice_complete bflyer_again = Inr (Some 2)"
    by (elim conjE) assumption
  from t have c5: "\<exists>st'. BusyFlyerDevice_deliver 0 bflyer_again = Inr st' \<and>
      statuses st' 2 = Some \<lparr>st_done = True, st_success = True\<rparr>"
    by (elim conjE) assumption
  from t have c6: "0 \<in> set (subscribers (after (BusyFlyerDevice_kickoff
      (final (BusyFlyerDevice_collect (BusyFlyerDevice_monitor BusyStatus_done bflyer_again))))))"
    by (elim conjE) assumption
  show ?thesis
    by (intro conjI) (rule a b c1 c2 c3 c4 c5 c6)+
qed

end
